theory Spec2Isabelle
  imports Complex_Main
begin

section \<open>Python values and dictionaries\<close>

text \<open>
  The events, the runtime metadata and the bodies of the server's responses are
  dynamically typed Python values. The model ranges over \<open>None\<close>, booleans, integers,
  strings and dictionaries with string keys (the event data model: numbers, strings and
  nested mappings). A dictionary is an association list in insertion order with one entry
  per key, as a Python \<open>dict\<close> is.
\<close>

datatype pyval =
    VNone
  | VBool bool
  | VInt int
  | VStr string
  | VDict "(string \<times> pyval) list"

type_synonym pydict = "(string \<times> pyval) list"

text \<open>\<open>d[k] = v\<close>: an existing key keeps its position, a new key goes last.\<close>

fun dict_set :: "pydict \<Rightarrow> string \<Rightarrow> pyval \<Rightarrow> pydict" where
  "dict_set [] k v = [(k, v)]"
| "dict_set ((k', v') # d) k v =
     (if k' = k then (k, v) # d else (k', v') # dict_set d k v)"

text \<open>\<open>d.update(e)\<close>, and so \<open>{**d, **e}\<close>: the entries of \<open>e\<close> are stored in order.\<close>

fun dict_update :: "pydict \<Rightarrow> pydict \<Rightarrow> pydict" where
  "dict_update d [] = d"
| "dict_update d ((k, v) # e) = dict_update (dict_set d k v) e"

text \<open>\<open>k in d\<close> and \<open>d.get(k)\<close>.\<close>

definition dict_has :: "pydict \<Rightarrow> string \<Rightarrow> bool" where
  "dict_has d k = (map_of d k \<noteq> None)"

definition dict_get :: "pydict \<Rightarrow> string \<Rightarrow> pyval option" where
  "dict_get d k = map_of d k"

text \<open>Truth value of a Python object, as \<open>if x:\<close> and \<open>x or y\<close> test it.\<close>

fun truthy :: "pyval \<Rightarrow> bool" where
  "truthy VNone = False"
| "truthy (VBool b) = b"
| "truthy (VInt n) = (n \<noteq> 0)"
| "truthy (VStr s) = (s \<noteq> [])"
| "truthy (VDict d) = (d \<noteq> [])"

fun is_str :: "pyval \<Rightarrow> bool" where
  "is_str (VStr s) = True"
| "is_str v = False"

section \<open>Exceptions\<close>

text \<open>
  The exception classes of \<open>exceptions.py\<close>, and the two built-in exceptions the code
  raises or lets through. \<open>SurfaIngestError\<close> carries its message, the status code and
  the response text.
\<close>

datatype error =
    TypeError
  | KeyError string
  | ValueError string
  | SurfaConfigError string
  | SurfaNetworkError string
  | SurfaValidationError string
  | SurfaAuthError string
  | SurfaIngestError string int string

section \<open>Events (events.py)\<close>

text \<open>
  The named parameters of \<open>create_event\<close>. All but \<open>kind\<close> default to \<open>None\<close>.
  Python does not enforce the annotations, so each parameter holds any value.
\<close>

record event_args =
  a_kind :: pyval
  a_subtype :: pyval
  a_tool_name :: pyval
  a_status :: pyval
  a_direction :: pyval
  a_method :: pyval
  a_correlation_id :: pyval
  a_span_parent_id :: pyval
  a_latency_ms :: pyval
  a_ts :: pyval
  a_payload :: pyval

definition only_kind :: "pyval \<Rightarrow> event_args" where
  "only_kind k =
     \<lparr>a_kind = k, a_subtype = VNone, a_tool_name = VNone, a_status = VNone,
      a_direction = VNone, a_method = VNone, a_correlation_id = VNone,
      a_span_parent_id = VNone, a_latency_ms = VNone, a_ts = VNone, a_payload = VNone\<rparr>"

text \<open>\<open>if x is not None: event[name] = x\<close>\<close>

definition set_if_given :: "string \<Rightarrow> pyval \<Rightarrow> pydict \<Rightarrow> pydict" where
  "set_if_given name x event = (if x \<noteq> VNone then dict_set event name x else event)"

text \<open>
  \<open>merged_payload.update(payload)\<close> for a truthy \<open>payload\<close>: a dictionary is merged;
  a number or \<open>True\<close> is not iterable (TypeError); a non-empty string iterates over
  one-character strings, none of which is a key-value pair (ValueError).
\<close>

fun update_from :: "pydict \<Rightarrow> pyval \<Rightarrow> error + pydict" where
  "update_from m (VDict d) = Inr (dict_update m d)"
| "update_from m (VStr s) =
     Inl (ValueError ''dictionary update sequence element #0 has length 1; 2 is required'')"
| "update_from m v = Inl TypeError"


text \<open>
  The first part of the body of \<open>create_event\<close>: the event with \<open>ts\<close>, \<open>kind\<close> and
  the optional fields that were given, in the source's order. \<open>now\<close> is what
  \<open>now_iso()\<close> returns at the call.
\<close>

definition named_fields :: "string \<Rightarrow> event_args \<Rightarrow> pydict" where
  "named_fields now a =
     (let event = [(''ts'', if truthy (a_ts a) then a_ts a else VStr now),
                   (''kind'', a_kind a)];
          event = set_if_given ''subtype'' (a_subtype a) event;
          event = set_if_given ''tool_name'' (a_tool_name a) event;
          event = set_if_given ''status'' (a_status a) event;
          event = set_if_given ''direction'' (a_direction a) event;
          event = set_if_given ''method'' (a_method a) event;
          event = set_if_given ''correlation_id'' (a_correlation_id a) event;
          event = set_if_given ''span_parent_id'' (a_span_parent_id a) event;
          event = set_if_given ''latency_ms'' (a_latency_ms a) event
      in event)"

text \<open>
  \<open>create_event\<close>: the named fields, then the merge of \<open>payload\<close> and \<open>kwargs\<close> (the
  keyword arguments that are not named parameters) into the event.
\<close>

definition create_event :: "string \<Rightarrow> event_args \<Rightarrow> pydict \<Rightarrow> error + pydict" where
  "create_event now a kwargs =
     (let event = named_fields now a
      in if truthy (a_payload a) \<or> kwargs \<noteq> [] then
           (case (if truthy (a_payload a) then update_from [] (a_payload a) else Inr []) of
              Inl e \<Rightarrow> Inl e
            | Inr merged_payload \<Rightarrow>
                Inr (dict_update event (dict_update merged_payload kwargs)))
         else Inr event)"

text \<open>
  \<open>validate_event\<close>: raises ValueError or returns \<open>True\<close>. It only reads the event.
\<close>

definition validate_event :: "pyval \<Rightarrow> error + bool" where
  "validate_event event =
     (case event of
        VDict d \<Rightarrow>
          (case dict_get d ''kind'' of
             None \<Rightarrow> Inl (ValueError ''Event must have 'kind' field'')
           | Some k \<Rightarrow>
               (case k of
                  VStr s \<Rightarrow>
                    if s = [] then Inl (ValueError ''Event 'kind' cannot be empty'')
                    else
                      (case dict_get d ''ts'' of
                         None \<Rightarrow> Inr True
                       | Some t \<Rightarrow>
                           if \<not> is_str t
                           then Inl (ValueError ''Event 'ts' must be a string'')
                           else Inr True)
                | _ \<Rightarrow> Inl (ValueError ''Event 'kind' must be a string'')))
      | _ \<Rightarrow> Inl (ValueError ''Event must be a dictionary''))"


subsection \<open>Calling \<open>create_event\<close> with keyword arguments\<close>

definition create_event_params :: "string list" where
  "create_event_params =
     [''kind'', ''subtype'', ''tool_name'', ''status'', ''direction'', ''method'',
      ''correlation_id'', ''span_parent_id'', ''latency_ms'', ''ts'', ''payload'']"

text \<open>The value a keyword binds, \<open>None\<close> (the parameter's default) when it is not given.\<close>

definition kwarg :: "pydict \<Rightarrow> string \<Rightarrow> pyval" where
  "kwarg kw name = (case dict_get kw name of Some v \<Rightarrow> v | None \<Rightarrow> VNone)"

text \<open>
  \<open>create_event(**kw)\<close>: a keyword that names a parameter binds it, the others are
  collected in \<open>kwargs\<close> in their order; without \<open>kind\<close> the call raises TypeError
  (a required argument is missing).
\<close>

definition call_create_event :: "string \<Rightarrow> pydict \<Rightarrow> error + pydict" where
  "call_create_event now kw =
     (if \<not> dict_has kw ''kind'' then Inl TypeError
      else create_event now
             \<lparr>a_kind = kwarg kw ''kind'', a_subtype = kwarg kw ''subtype'',
              a_tool_name = kwarg kw ''tool_name'', a_status = kwarg kw ''status'',
              a_direction = kwarg kw ''direction'', a_method = kwarg kw ''method'',
              a_correlation_id = kwarg kw ''correlation_id'',
              a_span_parent_id = kwarg kw ''span_parent_id'',
              a_latency_ms = kwarg kw ''latency_ms'', a_ts = kwarg kw ''ts'',
              a_payload = kwarg kw ''payload''\<rparr>
             (filter (\<lambda>(k, v). k \<notin> set create_event_params) kw))"

text \<open>
  \<open>f(name=value, ..., **kwargs)\<close>: a key of \<open>kwargs\<close> that repeats a keyword written
  in the call, or names a parameter the caller has bound already, raises TypeError
  (multiple values for a keyword argument).
\<close>

definition pass_kwargs :: "pydict \<Rightarrow> pydict \<Rightarrow> error + pydict" where
  "pass_kwargs named kwargs =
     (if list_ex (\<lambda>(k, v). dict_has named k) kwargs then Inl TypeError
      else Inr (named @ kwargs))"

subsection \<open>Helper constructors\<close>

text \<open>
  The helpers carry the names under which \<open>client.py\<close> imports them
  (\<open>session_started as create_session_started\<close> and so on).
\<close>

definition create_session_started :: "string \<Rightarrow> pyval \<Rightarrow> pydict \<Rightarrow> error + pydict" where
  "create_session_started now payload kwargs =
     (case pass_kwargs [(''kind'', VStr ''session''), (''subtype'', VStr ''session_started''),
                        (''payload'', payload)] kwargs of
        Inl e \<Rightarrow> Inl e
      | Inr kw \<Rightarrow> call_create_event now kw)"

definition create_session_ended :: "string \<Rightarrow> pyval \<Rightarrow> pydict \<Rightarrow> error + pydict" where
  "create_session_ended now payload kwargs =
     (case pass_kwargs [(''kind'', VStr ''session''), (''subtype'', VStr ''session_ended''),
                        (''payload'', payload)] kwargs of
        Inl e \<Rightarrow> Inl e
      | Inr kw \<Rightarrow> call_create_event now kw)"

definition create_tool_call_started ::
  "string \<Rightarrow> pyval \<Rightarrow> pyval \<Rightarrow> pyval \<Rightarrow> pydict \<Rightarrow> error + pydict" where
  "create_tool_call_started now tool_name args correlation_id kwargs =
     (if list_ex (\<lambda>(k, v). k \<in> set [''tool_name'', ''args'', ''correlation_id'']) kwargs
      then Inl TypeError
      else
        let event_data = [(''kind'', VStr ''tool''), (''subtype'', VStr ''tool_call_started''),
                          (''tool_name'', tool_name), (''direction'', VStr ''request'')];
            event_data = set_if_given ''correlation_id'' correlation_id event_data;
            event_data = set_if_given ''args'' args event_data;
            event_data = dict_update event_data kwargs
        in call_create_event now event_data)"

definition create_tool_call_completed ::
  "string \<Rightarrow> pyval \<Rightarrow> pyval \<Rightarrow> pyval \<Rightarrow> pyval \<Rightarrow> pydict \<Rightarrow> error + pydict" where
  "create_tool_call_completed now tool_name result latency_ms correlation_id kwargs =
     (if list_ex (\<lambda>(k, v). k \<in> set [''tool_name'', ''result'', ''latency_ms'',
                                       ''correlation_id'']) kwargs
      then Inl TypeError
      else
        let event_data = [(''kind'', VStr ''tool''), (''subtype'', VStr ''tool_call_completed''),
                          (''tool_name'', tool_name), (''direction'', VStr ''response''),
                          (''status'', VStr ''success'')];
            event_data = set_if_given ''latency_ms'' latency_ms event_data;
            event_data = set_if_given ''correlation_id'' correlation_id event_data;
            event_data = set_if_given ''result'' result event_data;
            event_data = dict_update event_data kwargs
        in call_create_event now event_data)"

definition create_tool_call_failed ::
  "string \<Rightarrow> pyval \<Rightarrow> pyval \<Rightarrow> pyval \<Rightarrow> pyval \<Rightarrow> pydict \<Rightarrow> error + pydict" where
  "create_tool_call_failed now tool_name err latency_ms correlation_id kwargs =
     (if list_ex (\<lambda>(k, v). k \<in> set [''tool_name'', ''error'', ''latency_ms'',
                                       ''correlation_id'']) kwargs
      then Inl TypeError
      else
        let event_data = [(''kind'', VStr ''tool''), (''subtype'', VStr ''tool_call_failed''),
                          (''tool_name'', tool_name), (''direction'', VStr ''response''),
                          (''status'', VStr ''error'')];
            event_data = set_if_given ''latency_ms'' latency_ms event_data;
            event_data = set_if_given ''correlation_id'' correlation_id event_data;
            event_data = set_if_given ''error'' err event_data;
            event_data = dict_update event_data kwargs
        in call_create_event now event_data)"

text \<open>\<open>custom\<close>: the default \<open>kind = 'custom'\<close> is filled in at the call.\<close>

definition create_custom :: "string \<Rightarrow> pyval \<Rightarrow> pyval \<Rightarrow> pyval \<Rightarrow> pydict \<Rightarrow> error + pydict" where
  "create_custom now kind subtype payload kwargs =
     (case pass_kwargs [(''kind'', kind), (''subtype'', subtype), (''payload'', payload)]
             kwargs of
        Inl e \<Rightarrow> Inl e
      | Inr kw \<Rightarrow> call_create_event now kw)"


section \<open>Formatting (f-strings)\<close>

text \<open>\<open>str\<close> of an integer: decimal digits, with a minus sign when negative.\<close>

definition digit_char :: "nat \<Rightarrow> char" where
  "digit_char n = ''0123456789'' ! n"

fun str_nat :: "nat \<Rightarrow> string" where
  "str_nat n = (if n < 10 then [digit_char n] else str_nat (n div 10) @ [digit_char (n mod 10)])"

declare str_nat.simps [simp del]

definition str_int :: "int \<Rightarrow> string" where
  "str_int i = (if i < 0 then CHR ''-'' # str_nat (nat (- i)) else str_nat (nat i))"

text \<open>
  A character of the model is a code point below 256. \<open>repr\<close> of a string: double
  quotes when the string has a single quote and no double quote, single quotes otherwise;
  the backslash and the enclosing quote are escaped with a backslash; tab, newline and
  carriage return are written \<open>\t\<close>, \<open>\n\<close>, \<open>\r\<close>; every other character that is
  not printable (the controls 0x00 to 0x1f and 0x7f to 0x9f, the no-break space 0xa0 and
  the soft hyphen 0xad) is written \<open>\xhh\<close> with two lower-case hexadecimal digits.
\<close>

definition printable :: "char \<Rightarrow> bool" where
  "printable c =
     (let n = (of_char c :: nat) in (32 \<le> n \<and> n < 127) \<or> (161 \<le> n \<and> n \<noteq> 173))"

definition hex_digit :: "nat \<Rightarrow> char" where
  "hex_digit n = ''0123456789abcdef'' ! n"

definition repr_char :: "char \<Rightarrow> char \<Rightarrow> string" where
  "repr_char q c =
     (if c = CHR 0x5C then [CHR 0x5C, CHR 0x5C]
      else if c = q then [CHR 0x5C, q]
      else if c = CHR 0x09 then [CHR 0x5C, CHR ''t'']
      else if c = CHR 0x0A then [CHR 0x5C, CHR ''n'']
      else if c = CHR 0x0D then [CHR 0x5C, CHR ''r'']
      else if \<not> printable c then
        [CHR 0x5C, CHR ''x'', hex_digit ((of_char c :: nat) div 16),
         hex_digit ((of_char c :: nat) mod 16)]
      else [c])"

definition repr_str :: "string \<Rightarrow> string" where
  "repr_str s =
     (let q = (if CHR 0x27 \<in> set s \<and> CHR 0x22 \<notin> set s then CHR 0x22 else CHR 0x27)
      in [q] @ concat (map (repr_char q) s) @ [q])"

fun join :: "string \<Rightarrow> string list \<Rightarrow> string" where
  "join sep [] = []"
| "join sep [x] = x"
| "join sep (x # y # ys) = x @ sep @ join sep (y # ys)"

fun py_repr :: "pyval \<Rightarrow> string" where
  "py_repr VNone = ''None''"
| "py_repr (VBool b) = (if b then ''True'' else ''False'')"
| "py_repr (VInt i) = str_int i"
| "py_repr (VStr s) = repr_str s"
| "py_repr (VDict d) =
     ''{'' @ join '', '' (map (\<lambda>kv. repr_str (fst kv) @ '': '' @ py_repr (snd kv)) d) @ ''}''"

text \<open>What an f-string puts for \<open>{v}\<close>: the string itself, \<open>repr\<close> for the rest.\<close>

fun py_str :: "pyval \<Rightarrow> string" where
  "py_str (VStr s) = s"
| "py_str v = py_repr v"

section \<open>Membership and subscription on response data\<close>

fun is_substring :: "string \<Rightarrow> string \<Rightarrow> bool" where
  "is_substring k [] = (k = [])"
| "is_substring k (c # s) = (take (length k) (c # s) = k \<or> is_substring k s)"

text \<open>
  \<open>k in x\<close> for a string \<open>k\<close>: a key test on a dictionary, a substring test on a
  string, TypeError on \<open>None\<close>, a boolean or a number.
\<close>

fun py_in :: "string \<Rightarrow> pyval \<Rightarrow> error + bool" where
  "py_in k (VDict d) = Inr (dict_has d k)"
| "py_in k (VStr s) = Inr (is_substring k s)"
| "py_in k v = Inl TypeError"

text \<open>\<open>x[k]\<close> for a string \<open>k\<close>: only a dictionary can be subscripted by a string.\<close>

fun py_getitem :: "pyval \<Rightarrow> string \<Rightarrow> error + pyval" where
  "py_getitem (VDict d) k = (case dict_get d k of None \<Rightarrow> Inl (KeyError k) | Some v \<Rightarrow> Inr v)"
| "py_getitem v k = Inl TypeError"

section \<open>The client (client.py)\<close>

subsection \<open>State, transport and effects\<close>

text \<open>
  The attributes of \<open>SurfaClient\<close>. \<open>execution_id\<close> is \<open>None\<close> until a response
  supplies one; \<open>runtime\<close> is \<open>None\<close> until \<open>set_runtime\<close>.
\<close>

record client =
  ingest_key :: string
  api_url :: string
  flush_at :: int
  timeout_s :: int
  session_id :: string
  execution_id :: pyval
  buffer :: "pyval list"
  runtime :: "pydict option"
  runtime_info_emitted :: bool
  session_ended :: bool

text \<open>
  What \<open>requests.post\<close> gives back: a response (its status code, its text, and its body
  parsed as JSON, \<open>None\<close> when \<open>response.json()\<close> raises ValueError), or one of the
  exceptions the code distinguishes, with the exception's text.
\<close>

record response =
  status_code :: int
  body_text :: string
  body_json :: "pyval option"

datatype outcome =
    Response response
  | Timeout string
  | ConnectionError string
  | RequestException string

text \<open>The transport: the outcome of the call made at each attempt of one flush.\<close>

type_synonym transport = "nat \<Rightarrow> outcome"

text \<open>The request body, with its two optional keys, and the whole request.\<close>

record payload =
  p_session_id :: string
  p_events :: "pyval list"
  p_execution_id :: "pyval option"
  p_runtime :: "pydict option"

record request =
  q_url :: string
  q_authorization :: string
  q_content_type :: string
  q_json :: payload
  q_timeout :: int

text \<open>The effects of a call, in order: each HTTP request made and each \<open>time.sleep\<close>.\<close>

datatype io = Post request | Sleep rat

type_synonym 'a outcome_of = "(error + 'a) \<times> client \<times> io list"

subsection \<open>Construction\<close>

definition startswith :: "string \<Rightarrow> string \<Rightarrow> bool" where
  "startswith s p = (take (length p) s = p)"

definition validate_ingest_key :: "string \<Rightarrow> error + bool" where
  "validate_ingest_key key =
     (if key = [] then Inl (ValueError ''Ingest key cannot be empty'')
      else if \<not> startswith key ''sk_live_'' \<and> \<not> startswith key ''sk_test_''
      then Inl (ValueError (''Ingest key must start with 'sk_live_' or 'sk_test_'' @ [CHR 0x27]))
      else if length key < 20 then Inl (ValueError ''Ingest key is too short'')
      else Inr True)"

definition rstrip_slash :: "string \<Rightarrow> string" where
  "rstrip_slash s = rev (dropWhile (\<lambda>c. c = CHR ''/'') (rev s))"

text \<open>\<open>__init__\<close>; \<open>sid\<close> is what \<open>generate_session_id()\<close> returns.\<close>

definition init :: "string \<Rightarrow> string \<Rightarrow> int \<Rightarrow> int \<Rightarrow> string \<Rightarrow> error + client" where
  "init key url flush_at' timeout_s' sid =
     (case validate_ingest_key key of
        Inl (ValueError m) \<Rightarrow> Inl (SurfaConfigError (''Invalid ingest key: '' @ m))
      | Inl e \<Rightarrow> Inl e
      | Inr _ \<Rightarrow>
          Inr \<lparr>ingest_key = key, api_url = rstrip_slash url, flush_at = flush_at',
               timeout_s = timeout_s', session_id = sid, execution_id = VNone, buffer = [],
               runtime = None, runtime_info_emitted = False, session_ended = False\<rparr>)"

subsection \<open>\<open>set_runtime\<close>\<close>

text \<open>
  \<open>set_runtime(self, provider, model, mode=None, extra=None, **kwargs)\<close>. A key of
  \<open>kwargs\<close> cannot name a parameter, \<open>self\<close> included (the call raises TypeError).
  Every raise comes before the two assignments.
\<close>

definition set_runtime ::
  "client \<Rightarrow> pyval \<Rightarrow> pyval \<Rightarrow> pyval \<Rightarrow> pyval \<Rightarrow> pydict \<Rightarrow> error + client" where
  "set_runtime c provider model mode extra kwargs =
     (if list_ex (\<lambda>(k, v). k \<in> set [''self'', ''provider'', ''model'', ''mode'', ''extra''])
           kwargs
      then Inl TypeError
      else
        let rt = [(''provider'', provider), (''model'', model)];
            rt = (if truthy mode then dict_set rt ''mode'' mode else rt)
        in case (if truthy extra then update_from rt extra else Inr rt) of
             Inl e \<Rightarrow> Inl e
           | Inr rt \<Rightarrow>
               Inr (c\<lparr>runtime := Some (dict_update rt kwargs), runtime_info_emitted := False\<rparr>))"

subsection \<open>\<open>flush\<close>\<close>

definition max_retries :: nat where
  "max_retries = 3"

definition retry_statuses :: "int set" where
  "retry_statuses = {429, 500, 502, 503, 504}"

definition base_delay :: rat where
  "base_delay = 1 / 2"

text \<open>\<open>self._runtime and not self._runtime_info_emitted\<close>\<close>

definition runtime_info_due :: "client \<Rightarrow> bool" where
  "runtime_info_due c =
     (case runtime c of None \<Rightarrow> False | Some rt \<Rightarrow> rt \<noteq> [] \<and> \<not> runtime_info_emitted c)"

definition runtime_info_event :: "pydict \<Rightarrow> pyval" where
  "runtime_info_event rt =
     VDict (dict_update [(''kind'', VStr ''runtime''), (''subtype'', VStr ''runtime_info'')] rt)"

text \<open>The copy of the buffer, with the runtime-info event inserted at index 0 when due.\<close>

definition events_to_send :: "client \<Rightarrow> pyval list" where
  "events_to_send c =
     (case runtime c of
        None \<Rightarrow> buffer c
      | Some rt \<Rightarrow>
          if rt \<noteq> [] \<and> \<not> runtime_info_emitted c then runtime_info_event rt # buffer c
          else buffer c)"

definition build_payload :: "client \<Rightarrow> payload" where
  "build_payload c =
     \<lparr>p_session_id = session_id c, p_events = events_to_send c,
      p_execution_id = (if execution_id c \<noteq> VNone then Some (execution_id c) else None),
      p_runtime = runtime c\<rparr>"

definition build_request :: "client \<Rightarrow> request" where
  "build_request c =
     \<lparr>q_url = api_url c @ ''/api/v1/ingest/events'',
      q_authorization = ''Bearer '' @ ingest_key c,
      q_content_type = ''application/json'',
      q_json = build_payload c, q_timeout = timeout_s c\<rparr>"

text \<open>
  The 2xx branch: the data (an empty dictionary when the body does not parse), then the
  three updates, in the source's order. The membership test and the subscription can
  raise TypeError on data that is not a dictionary; both come before the first update.
\<close>

definition on_success :: "client \<Rightarrow> response \<Rightarrow> error + (pyval \<times> client)" where
  "on_success c r =
     (let data = (case body_json r of None \<Rightarrow> VDict [] | Some j \<Rightarrow> j) in
      case py_in ''execution_id'' data of
        Inl e \<Rightarrow> Inl e
      | Inr has \<Rightarrow>
          (case (if has \<and> execution_id c = VNone then py_getitem data ''execution_id''
                 else Inr (execution_id c)) of
             Inl e \<Rightarrow> Inl e
           | Inr eid \<Rightarrow>
               let c1 = c\<lparr>execution_id := eid\<rparr>;
                   c2 = (if runtime_info_due c1 then c1\<lparr>runtime_info_emitted := True\<rparr>
                         else c1)
               in Inr (data, c2\<lparr>buffer := []\<rparr>)))"

text \<open>
  The message with the response's \<open>error\<close> field appended when the body parses and has
  one (the ValueError of \<open>response.json()\<close> is caught, a TypeError is not).
\<close>

definition with_error_field :: "string \<Rightarrow> response \<Rightarrow> error + string" where
  "with_error_field error_msg r =
     (case body_json r of
        None \<Rightarrow> Inr error_msg
      | Some error_data \<Rightarrow>
          (case py_in ''error'' error_data of
             Inl e \<Rightarrow> Inl e
           | Inr has \<Rightarrow>
               if has then
                 (case py_getitem error_data ''error'' of
                    Inl e \<Rightarrow> Inl e
                  | Inr v \<Rightarrow> Inr (error_msg @ '' - '' @ py_str v))
               else Inr error_msg))"

text \<open>
  One pass through the body of \<open>for attempt in range(max_retries)\<close>, given what
  \<open>requests.post\<close> did: the body returns, raises, or sleeps and goes on
  (\<open>continue\<close>) with \<open>last_error\<close> set.
\<close>

datatype attempt_result =
    Returned pyval client
  | Raised error
  | Continue error rat

definition retry_or_raise :: "error \<Rightarrow> nat \<Rightarrow> attempt_result" where
  "retry_or_raise last_error attempt =
     (if attempt < max_retries - 1 then Continue last_error (base_delay * 2 ^ attempt)
      else Raised last_error)"

definition attempt_body :: "client \<Rightarrow> outcome \<Rightarrow> nat \<Rightarrow> attempt_result" where
  "attempt_body c posted attempt =
     (case posted of
        Response r \<Rightarrow>
          if 200 \<le> status_code r \<and> status_code r < 300 then
            (case on_success c r of
               Inl e \<Rightarrow> Raised e
             | Inr (data, c') \<Rightarrow> Returned data c')
          else if status_code r \<in> {401, 403} then
            (case with_error_field (''Authentication failed: '' @ str_int (status_code r)) r of
               Inl e \<Rightarrow> Raised e
             | Inr error_msg \<Rightarrow> Raised (SurfaAuthError error_msg))
          else if 400 \<le> status_code r \<and> status_code r < 500
                  \<and> status_code r \<notin> retry_statuses then
            (case with_error_field (''Client error: '' @ str_int (status_code r)) r of
               Inl e \<Rightarrow> Raised e
             | Inr error_msg \<Rightarrow>
                 Raised (SurfaIngestError error_msg (status_code r) (take 500 (body_text r))))
          else if status_code r \<in> retry_statuses then
            retry_or_raise
              (SurfaIngestError (''Server error: '' @ str_int (status_code r))
                 (status_code r) (take 500 (body_text r)))
              attempt
          else
            Raised (SurfaIngestError (''Server error: '' @ str_int (status_code r))
                      (status_code r) (take 500 (body_text r)))
      | Timeout m \<Rightarrow> retry_or_raise (SurfaNetworkError (''Network error: '' @ m)) attempt
      | ConnectionError m \<Rightarrow> retry_or_raise (SurfaNetworkError (''Network error: '' @ m)) attempt
      | RequestException m \<Rightarrow> Raised (SurfaNetworkError (''Request failed: '' @ m)))"

text \<open>
  The outcomes after which an attempt other than the last sleeps and goes on: a timeout,
  a connection error, and a response whose status is one of \<open>retry_statuses\<close>.
\<close>

fun retried :: "outcome \<Rightarrow> bool" where
  "retried (Response r) = (status_code r \<in> retry_statuses)"
| "retried (Timeout m) = True"
| "retried (ConnectionError m) = True"
| "retried (RequestException m) = False"

definition add_io :: "io list \<Rightarrow> 'a outcome_of \<Rightarrow> 'a outcome_of" where
  "add_io ios x = (case x of (res, c, t) \<Rightarrow> (res, c, ios @ t))"

text \<open>
  The loop, over the attempts that remain, with \<open>last_error\<close>; the empty list is the
  code after the loop.
\<close>

fun flush_attempts ::
  "client \<Rightarrow> request \<Rightarrow> transport \<Rightarrow> nat list \<Rightarrow> error option \<Rightarrow> pyval outcome_of" where
  "flush_attempts c req tr [] last_error =
     (case last_error of
        Some e \<Rightarrow> (Inl e, c, [])
      | None \<Rightarrow> (Inl (SurfaNetworkError ''Failed to flush events after retries''), c, []))"
| "flush_attempts c req tr (attempt # rest) last_error =
     (case attempt_body c (tr attempt) attempt of
        Returned data c' \<Rightarrow> (Inr data, c', [Post req])
      | Raised e \<Rightarrow> (Inl e, c, [Post req])
      | Continue e delay \<Rightarrow>
          add_io [Post req, Sleep delay] (flush_attempts c req tr rest (Some e)))"

text \<open>\<open>flush\<close>: \<open>None\<close> at once on an empty buffer, the loop otherwise.\<close>

definition flush :: "client \<Rightarrow> transport \<Rightarrow> pyval outcome_of" where
  "flush c tr =
     (if buffer c = [] then (Inr VNone, c, [])
      else flush_attempts c (build_request c) tr [0..<max_retries] None)"

subsection \<open>A flush while other callers append\<close>

text \<open>
  The client takes no lock, so another caller can append to \<open>self._buffer\<close> (the append
  of \<open>track_raw\<close>, below the threshold \<open>flush_at\<close>) while a flush waits in
  \<open>requests.post\<close> or in \<open>time.sleep\<close>. \<open>late n\<close> is what other callers have appended
  between the start of attempt \<open>n\<close> and the moment its response is handled. The request
  was built before the loop, from the copy of the buffer taken then; the body of the
  attempt runs on the client as it is when the response arrives.
\<close>

fun flush_attempts_live ::
  "client \<Rightarrow> request \<Rightarrow> transport \<Rightarrow> (nat \<Rightarrow> pyval list) \<Rightarrow> nat list \<Rightarrow> error option
   \<Rightarrow> pyval outcome_of" where
  "flush_attempts_live c req tr late [] last_error =
     (case last_error of
        Some e \<Rightarrow> (Inl e, c, [])
      | None \<Rightarrow> (Inl (SurfaNetworkError ''Failed to flush events after retries''), c, []))"
| "flush_attempts_live c req tr late (attempt # rest) last_error =
     (let live = c\<lparr>buffer := buffer c @ late attempt\<rparr> in
      case attempt_body live (tr attempt) attempt of
        Returned data c' \<Rightarrow> (Inr data, c', [Post req])
      | Raised e \<Rightarrow> (Inl e, live, [Post req])
      | Continue e delay \<Rightarrow>
          add_io [Post req, Sleep delay]
            (flush_attempts_live live req tr late rest (Some e)))"

definition flush_live :: "client \<Rightarrow> transport \<Rightarrow> (nat \<Rightarrow> pyval list) \<Rightarrow> pyval outcome_of" where
  "flush_live c tr late =
     (if buffer c = [] then (Inr VNone, c, [])
      else flush_attempts_live c (build_request c) tr late [0..<max_retries] None)"

subsection \<open>Tracking\<close>

text \<open>
  \<open>track_raw\<close>: validation, the append, and the flush when the buffer has reached
  \<open>flush_at\<close>. An error of the flush propagates with the event in the buffer.
\<close>

definition track_raw :: "client \<Rightarrow> transport \<Rightarrow> pyval \<Rightarrow> unit outcome_of" where
  "track_raw c tr event_dict =
     (case validate_event event_dict of
        Inl (ValueError m) \<Rightarrow> (Inl (SurfaValidationError (''Invalid event: '' @ m)), c, [])
      | Inl e \<Rightarrow> (Inl e, c, [])
      | Inr _ \<Rightarrow>
          let c1 = c\<lparr>buffer := buffer c @ [event_dict]\<rparr> in
          if int (length (buffer c1)) \<ge> flush_at c1 then
            (case flush c1 tr of
               (Inl e, c2, t) \<Rightarrow> (Inl e, c2, t)
             | (Inr _, c2, t) \<Rightarrow> (Inr (), c2, t))
          else (Inr (), c1, []))"

definition track :: "client \<Rightarrow> transport \<Rightarrow> pyval \<Rightarrow> unit outcome_of" where
  "track c tr event = track_raw c tr event"

text \<open>
  The convenience methods build an event with a helper constructor and track it; an
  exception of the constructor leaves the client as it was. \<open>**kwargs\<close> binds the
  helper's \<open>payload\<close> parameter when it has that key; a key \<open>self\<close> collides with
  the method's own first parameter (TypeError at the call).
\<close>

definition without_key :: "string \<Rightarrow> pydict \<Rightarrow> pydict" where
  "without_key name kw = filter (\<lambda>(k, v). k \<noteq> name) kw"

definition track_created :: "client \<Rightarrow> transport \<Rightarrow> error + pydict \<Rightarrow> unit outcome_of" where
  "track_created c tr created =
     (case created of Inl e \<Rightarrow> (Inl e, c, []) | Inr event \<Rightarrow> track c tr (VDict event))"

definition method_call :: "client \<Rightarrow> pydict \<Rightarrow> unit outcome_of \<Rightarrow> unit outcome_of" where
  "method_call c kwargs body = (if dict_has kwargs ''self'' then (Inl TypeError, c, []) else body)"

definition session_start :: "client \<Rightarrow> transport \<Rightarrow> string \<Rightarrow> pydict \<Rightarrow> unit outcome_of" where
  "session_start c tr now kwargs =
     method_call c kwargs
       (track_created c tr
          (create_session_started now (kwarg kwargs ''payload'') (without_key ''payload'' kwargs)))"

definition session_end :: "client \<Rightarrow> transport \<Rightarrow> string \<Rightarrow> pydict \<Rightarrow> unit outcome_of" where
  "session_end c tr now kwargs =
     method_call c kwargs
       ((if \<not> session_ended c then
           (case track_created c tr
                   (create_session_ended now (kwarg kwargs ''payload'')
                      (without_key ''payload'' kwargs)) of
              (Inl e, c1, t) \<Rightarrow> (Inl e, c1, t)
            | (Inr u, c1, t) \<Rightarrow> (Inr (), c1\<lparr>session_ended := True\<rparr>, t))
         else (Inr (), c, [])))"

definition tool_started ::
  "client \<Rightarrow> transport \<Rightarrow> string \<Rightarrow> pyval \<Rightarrow> pyval \<Rightarrow> pyval \<Rightarrow> pydict \<Rightarrow> unit outcome_of" where
  "tool_started c tr now tool_name args correlation_id kwargs =
     method_call c kwargs
       (track_created c tr (create_tool_call_started now tool_name args correlation_id kwargs))"

definition tool_completed ::
  "client \<Rightarrow> transport \<Rightarrow> string \<Rightarrow> pyval \<Rightarrow> pyval \<Rightarrow> pyval \<Rightarrow> pyval \<Rightarrow> pydict
   \<Rightarrow> unit outcome_of" where
  "tool_completed c tr now tool_name result latency_ms correlation_id kwargs =
     method_call c kwargs
       (track_created c tr
          (create_tool_call_completed now tool_name result latency_ms correlation_id kwargs))"

definition tool_failed ::
  "client \<Rightarrow> transport \<Rightarrow> string \<Rightarrow> pyval \<Rightarrow> pyval \<Rightarrow> pyval \<Rightarrow> pyval \<Rightarrow> pydict
   \<Rightarrow> unit outcome_of" where
  "tool_failed c tr now tool_name err latency_ms correlation_id kwargs =
     method_call c kwargs
       (track_created c tr
          (create_tool_call_failed now tool_name err latency_ms correlation_id kwargs))"

definition custom_event ::
  "client \<Rightarrow> transport \<Rightarrow> string \<Rightarrow> pyval \<Rightarrow> pyval \<Rightarrow> pydict \<Rightarrow> unit outcome_of" where
  "custom_event c tr now kind subtype kwargs =
     method_call c kwargs
       (track_created c tr
          (create_custom now kind subtype (kwarg kwargs ''payload'')
             (without_key ''payload'' kwargs)))"

subsection \<open>Sequences of calls\<close>

text \<open>
  A caller's use of the client: tracking calls, flushes and runtime assignments, each
  with the transport that answers the requests of that call. \<open>after\<close> is the client's
  state when the call has returned or raised.
\<close>

datatype call =
    Call_track pyval
  | Call_flush
  | Call_set_runtime pyval pyval pyval pyval pydict

fun after :: "client \<Rightarrow> call \<times> transport \<Rightarrow> client" where
  "after c (Call_track event, tr) = fst (snd (track c tr event))"
| "after c (Call_flush, tr) = fst (snd (flush c tr))"
| "after c (Call_set_runtime provider model mode extra kwargs, tr) =
     (case set_runtime c provider model mode extra kwargs of Inl e \<Rightarrow> c | Inr c' \<Rightarrow> c')"

definition run :: "client \<Rightarrow> (call \<times> transport) list \<Rightarrow> client" where
  "run c calls = foldl after c calls"

subsection \<open>Test fixtures\<close>

text \<open>A mocked transport that answers the attempts with the listed outcomes.\<close>

definition replay :: "outcome list \<Rightarrow> transport" where
  "replay outcomes n =
     (if n < length outcomes then outcomes ! n else RequestException ''no more responses'')"

text \<open>
  The bodies the ingestion endpoint documents: a JSON object, or a body that is not JSON.
\<close>

definition object_body :: "response \<Rightarrow> bool" where
  "object_body r =
     (case body_json r of None \<Rightarrow> True | Some (VDict d) \<Rightarrow> True | Some v \<Rightarrow> False)"

definition status_response :: "int \<Rightarrow> response" where
  "status_response s = \<lparr>status_code = s, body_text = '''', body_json = None\<rparr>"

definition demo_client :: client where
  "demo_client =
     \<lparr>ingest_key = ''sk_test_demo_key_1234567890'', api_url = ''http://localhost:3000'',
      flush_at = 2, timeout_s = 10, session_id = ''s-1'', execution_id = VNone, buffer = [],
      runtime = None, runtime_info_emitted = False, session_ended = False\<rparr>"

definition demo_event :: pyval where
  "demo_event = VDict [(''ts'', VStr ''2026-01-29T20:00:00Z''), (''kind'', VStr ''tool'')]"

definition demo_buffered :: client where
  "demo_buffered = demo_client\<lparr>buffer := [demo_event]\<rparr>"

definition ok_response :: "string \<Rightarrow> response" where
  "ok_response eid =
     \<lparr>status_code = 200, body_text = ''{}'',
      body_json = Some (VDict [(''execution_id'', VStr eid)])\<rparr>"

text \<open>
  The effects of a flush that ends at attempt \<open>n\<close>: a request and a sleep of
  \<open>base_delay * 2 ^ k\<close> for each earlier attempt \<open>k\<close>, then the last request.
\<close>

definition retry_trace :: "request \<Rightarrow> nat \<Rightarrow> io list" where
  "retry_trace q n =
     concat (map (\<lambda>k. [Post q, Sleep (base_delay * 2 ^ k)]) [0..<n]) @ [Post q]"

definition long_text :: string where
  "long_text = replicate 600 (CHR ''x'')"

definition demo_with_id :: client where
  "demo_with_id = demo_buffered\<lparr>execution_id := VStr ''exec-1''\<rparr>"

definition auth_response :: response where
  "auth_response =
     \<lparr>status_code = 401, body_text = ''unauthorized'',
      body_json = Some (VDict [(''error'', VStr long_text)])\<rparr>"

definition ok_transport :: transport where
  "ok_transport = replay [Response (ok_response ''exec-1'')]"

text \<open>A client whose runtime was set with \<open>extra = {'kind': 'tool'}\<close>.\<close>

definition rt_kind_client :: client where
  "rt_kind_client =
     demo_buffered\<lparr>runtime := Some [(''provider'', VStr ''anthropic''),
                                       (''model'', VStr ''claude-x''),
                                       (''kind'', VStr ''tool'')],
                    runtime_info_emitted := False\<rparr>"

definition rt_client :: client where
  "rt_client =
     demo_buffered\<lparr>runtime := Some [(''provider'', VStr ''anthropic''),
                                       (''model'', VStr ''claude-x'')],
                    runtime_info_emitted := False\<rparr>"

definition rt_sent :: client where
  "rt_sent = rt_client\<lparr>execution_id := VStr ''exec-1'', runtime_info_emitted := True,
                        buffer := []\<rparr>"




text \<open>
  A client with one buffered event and a threshold of 10, an event another caller tracks
  while a flush is in progress, and the appends of a run where that happens during
  attempt \<open>n\<close>.
\<close>

definition live_client :: client where
  "live_client = demo_buffered\<lparr>flush_at := 10\<rparr>"

definition late_event :: pyval where
  "late_event = VDict [(''ts'', VStr ''2026-01-29T20:00:01Z''), (''kind'', VStr ''session'')]"

definition appended_during :: "nat \<Rightarrow> nat \<Rightarrow> pyval list" where
  "appended_during n k = (if k = n then [late_event] else [])"

section \<open>Properties of dictionaries\<close>

lemma map_of_dict_set: "map_of (dict_set d k v) = (map_of d)(k \<mapsto> v)"
  by (induction d k v rule: dict_set.induct) auto

lemma keys_dict_set: "fst ` set (dict_set d k v) = insert k (fst ` set d)"
  by (induction d k v rule: dict_set.induct) auto

lemma distinct_dict_set: "distinct (map fst d) \<Longrightarrow> distinct (map fst (dict_set d k v))"
proof (induction d k v rule: dict_set.induct)
  case (1 k v)
  then show ?case by simp
next
  case (2 k' v' d k v)
  then show ?case
    using keys_dict_set [of d k v] by (cases "k' = k") auto
qed

lemma distinct_dict_update:
  "distinct (map fst d) \<Longrightarrow> distinct (map fst (dict_update d e))"
  by (induction d e rule: dict_update.induct) (simp_all add: distinct_dict_set)

lemma dict_set_nonempty: "dict_set d k v \<noteq> []"
  by (cases d) (auto split: if_splits)

lemma dict_update_nonempty: "d \<noteq> [] \<Longrightarrow> dict_update d e \<noteq> []"
  by (induction d e rule: dict_update.induct) (simp_all add: dict_set_nonempty)

lemma map_of_dict_update:
  "distinct (map fst e) \<Longrightarrow> map_of (dict_update d e) = map_of d ++ map_of e"
proof (induction e arbitrary: d)
  case Nil
  then show ?case by simp
next
  case (Cons a e)
  obtain k v where a: "a = (k, v)" by (cases a)
  from Cons.prems a have k: "k \<notin> dom (map_of e)" and d: "distinct (map fst e)"
    by (auto simp: dom_map_of_conv_image_fst)
  have "map_of (dict_update d (a # e)) = map_of (dict_set d k v) ++ map_of e"
    using Cons.IH [OF d] a by simp
  also have "\<dots> = (map_of d)(k \<mapsto> v) ++ map_of e"
    by (simp only: map_of_dict_set)
  also have "\<dots> = (map_of d ++ map_of e)(k \<mapsto> v)"
    using k by (rule map_add_upd_left)
  also have "\<dots> = map_of d ++ map_of (a # e)"
    using a by simp
  finally show ?case .
qed

text \<open>After \<open>d.update(e)\<close> a key of \<open>e\<close> has the value of \<open>e\<close>, any other key that of \<open>d\<close>.\<close>

lemma dict_get_update:
  assumes "distinct (map fst e)"
  shows "dict_get (dict_update d e) k =
           (case dict_get e k of None \<Rightarrow> dict_get d k | Some v \<Rightarrow> Some v)"
  using assms
  by (cases "map_of e k") (simp_all add: dict_get_def map_of_dict_update map_add_def)

lemma dict_get_set:
  "dict_get (dict_set d k v) k' = (if k' = k then Some v else dict_get d k')"
  by (simp add: dict_get_def map_of_dict_set)





section \<open>Properties of the flush protocol\<close>

subsection \<open>One attempt of the retry loop\<close>

lemma flush_attempts_ConsE:
  assumes "flush_attempts c req tr (a # as) le = (res, c', t)"
  obtains (success) data where "attempt_body c (tr a) a = Returned data c'"
      "res = Inr data" "t = [Post req]"
  | (raise) e where "attempt_body c (tr a) a = Raised e" "res = Inl e" "c' = c"
      "t = [Post req]"
  | (retry) e d t' where "attempt_body c (tr a) a = Continue e d"
      "flush_attempts c req tr as (Some e) = (res, c', t')" "t = Post req # Sleep d # t'"
proof (cases "attempt_body c (tr a) a")
  case (Returned data c1)
  with assms have "res = Inr data" "c1 = c'" "t = [Post req]"
    by simp_all
  with Returned show ?thesis
    by (intro success [of data]) simp_all
next
  case (Raised e)
  with assms have "res = Inl e" "c' = c" "t = [Post req]"
    by simp_all
  with Raised show ?thesis
    by (intro raise [of e]) simp_all
next
  case (Continue e d)
  obtain res1 c1 t1 where rest: "flush_attempts c req tr as (Some e) = (res1, c1, t1)"
    by (cases "flush_attempts c req tr as (Some e)")
  from assms Continue rest have "res1 = res" "c1 = c'" "t = Post req # Sleep d # t1"
    by (simp_all add: add_io_def)
  with rest Continue show ?thesis
    by (intro retry [of e d t1]) simp_all
qed

lemma attempt_body_Returned:
  assumes "attempt_body c posted a = Returned data c'"
  obtains r where "posted = Response r" "200 \<le> status_code r" "status_code r < 300"
    "on_success c r = Inr (data, c')"
  using assms
  by (auto simp: attempt_body_def retry_or_raise_def
      split: outcome.splits if_splits sum.splits prod.splits)

lemma attempt_body_Continue:
  assumes "attempt_body c posted a = Continue e d"
  shows "a < max_retries - 1" and "d = base_delay * 2 ^ a"
  using assms
  by (auto simp: attempt_body_def retry_or_raise_def
      split: outcome.splits if_splits sum.splits prod.splits)

lemma attempt_body_retried:
  assumes "retried posted" and "k < max_retries - 1"
  shows "\<exists>e. attempt_body c posted k = Continue e (base_delay * 2 ^ k)"
  using assms
  by (cases posted) (auto simp: attempt_body_def retry_or_raise_def retry_statuses_def)

lemma attempt_body_Continue_retried:
  assumes "attempt_body c posted a = Continue e d"
  shows "retried posted"
  using assms
  by (cases posted)
    (auto simp: attempt_body_def retry_or_raise_def split: if_splits sum.splits prod.splits)

lemma on_success_shape:
  assumes "on_success c r = Inr (data, c')"
  shows "c' = c\<lparr>execution_id := execution_id c',
                runtime_info_emitted := runtime_info_emitted c', buffer := []\<rparr>"
    and "execution_id c \<noteq> VNone \<Longrightarrow> execution_id c' = execution_id c"
    and "runtime_info_emitted c' = (runtime_info_emitted c \<or> runtime_info_due c)"
    and "data = (case body_json r of None \<Rightarrow> VDict [] | Some j \<Rightarrow> j)"
  using assms
  by (auto simp: on_success_def Let_def runtime_info_due_def
      split: sum.splits if_splits option.splits)

lemma flush_attempts_outcome:
  "flush_attempts c req tr as le = (res, c', t) \<Longrightarrow>
   (case res of
      Inl e \<Rightarrow> c' = c
    | Inr data \<Rightarrow>
        \<exists>n r. n \<in> set as \<and> tr n = Response r \<and> 200 \<le> status_code r \<and> status_code r < 300
          \<and> on_success c r = Inr (data, c'))"
proof (induction as arbitrary: le t)
  case Nil
  then show ?case by (auto split: option.splits)
next
  case (Cons a as)
  from Cons.prems show ?case
  proof (cases rule: flush_attempts_ConsE)
    case (success data)
    then show ?thesis by (auto elim!: attempt_body_Returned)
  next
    case (raise e)
    then show ?thesis by simp
  next
    case (retry e d t')
    from Cons.IH [OF retry(2)] show ?thesis
      by (cases res) auto
  qed
qed

lemma flush_outcome:
  assumes "flush c tr = (res, c', t)" and "buffer c \<noteq> []"
  shows "case res of
           Inl e \<Rightarrow> c' = c
         | Inr data \<Rightarrow>
             \<exists>n r. n < max_retries \<and> tr n = Response r \<and> 200 \<le> status_code r
               \<and> status_code r < 300 \<and> on_success c r = Inr (data, c')"
  using flush_attempts_outcome [of c "build_request c" tr "[0..<max_retries]" None res c' t] assms
  by (cases res) (auto simp: flush_def)

subsection \<open>Atomicity\<close>

text \<open>
  C1. With a non-empty buffer, \<open>flush\<close> either returns or raises. When it raises, the
  client is exactly as it was: the buffer, \<open>execution_id\<close>, \<open>runtime_info_emitted\<close> and
  every other attribute are unchanged, so the next call sends the same request. When it
  returns, the buffer is empty, only \<open>execution_id\<close> and \<open>runtime_info_emitted\<close> may
  have changed besides (the first only from \<open>None\<close>, the second only to \<open>True\<close>), and the
  value returned is the parsed body of a 2xx response of one of the three attempts
  (the empty dictionary when the body is not JSON).
\<close>

theorem flush_atomic:
  assumes "buffer c \<noteq> []" and "flush c tr = (res, c', t)"
  shows "case res of
           Inl e \<Rightarrow> c' = c \<and> build_request c' = build_request c
         | Inr data \<Rightarrow>
             buffer c' = []
             \<and> c' = c\<lparr>execution_id := execution_id c',
                       runtime_info_emitted := runtime_info_emitted c', buffer := []\<rparr>
             \<and> (execution_id c \<noteq> VNone \<longrightarrow> execution_id c' = execution_id c)
             \<and> (runtime_info_emitted c \<longrightarrow> runtime_info_emitted c')
             \<and> (\<exists>n r. n < max_retries \<and> tr n = Response r \<and> 200 \<le> status_code r
                    \<and> status_code r < 300
                    \<and> data = (case body_json r of None \<Rightarrow> VDict [] | Some j \<Rightarrow> j))"
proof (cases res)
  case (Inl e)
  with flush_outcome [OF assms(2) assms(1)] show ?thesis by simp
next
  case (Inr data)
  with flush_outcome [OF assms(2) assms(1)] obtain n r where
    n: "n < max_retries" "tr n = Response r" "200 \<le> status_code r" "status_code r < 300"
    and ok: "on_success c r = Inr (data, c')"
    by auto
  note shape = on_success_shape [OF ok]
  have "buffer c' = []" by (subst shape(1)) simp
  moreover have "runtime_info_emitted c \<longrightarrow> runtime_info_emitted c'"
    using shape(3) by simp
  ultimately show ?thesis
    using Inr n shape(1,2,4) by auto
qed

lemma str_int_evals:
  "str_int 200 = ''200''" "str_int 401 = ''401''" "str_int 403 = ''403''"
  "str_int 404 = ''404''" "str_int 429 = ''429''" "str_int 501 = ''501''"
  "str_int 503 = ''503''"
  by (simp_all add: str_int_def str_nat.simps digit_char_def)

lemmas fixture_defs =
  demo_buffered_def demo_client_def demo_event_def ok_response_def status_response_def
  replay_def

lemma attempts_list: "[0..<max_retries] = [0, 1, 2]"
  by (simp add: max_retries_def upt_rec numeral_2_eq_2 numeral_3_eq_3)

lemma flush_unroll:
  "buffer c \<noteq> [] \<Longrightarrow> flush c tr = flush_attempts c (build_request c) tr [0, 1, 2] None"
  by (simp only: flush_def attempts_list if_False)

lemmas flush_defs =
  attempt_body_def retry_or_raise_def max_retries_def retry_statuses_def
  base_delay_def add_io_def on_success_def
  with_error_field_def dict_has_def dict_get_def runtime_info_due_def

lemma flush_retry_then_ok:
  "flush demo_buffered (replay [Response (status_response 503), Response (ok_response ''exec-1'')])
   = (Inr (VDict [(''execution_id'', VStr ''exec-1'')]),
      demo_buffered\<lparr>execution_id := VStr ''exec-1'', buffer := []\<rparr>,
      [Post (build_request demo_buffered), Sleep (1 / 2), Post (build_request demo_buffered)])"
proof -
  have "buffer demo_buffered \<noteq> []" by (simp add: fixture_defs)
  then show ?thesis
    by (simp add: flush_unroll) (simp add: flush_defs fixture_defs str_int_evals)
qed

theorem flush_atomic_witness:
  "buffer demo_buffered \<noteq> []
   \<and> flush demo_buffered
       (replay [Response (status_response 503), Response (ok_response ''exec-1'')])
     = (Inr (VDict [(''execution_id'', VStr ''exec-1'')]),
        demo_buffered\<lparr>execution_id := VStr ''exec-1'', buffer := []\<rparr>,
        [Post (build_request demo_buffered), Sleep (1 / 2), Post (build_request demo_buffered)])
   \<and> buffer (demo_buffered\<lparr>execution_id := VStr ''exec-1'', buffer := []\<rparr>) = []"
proof -
  have nonempty: "buffer demo_buffered \<noteq> []"
    by (simp add: fixture_defs)
  from flush_atomic [OF nonempty flush_retry_then_ok] nonempty flush_retry_then_ok
  show ?thesis by simp
qed

subsection \<open>Which attempt decides a flush\<close>

lemma retry_trace_evals:
  "retry_trace q 0 = [Post q]"
  "retry_trace q 1 = [Post q, Sleep (1 / 2), Post q]"
  "retry_trace q (Suc 0) = [Post q, Sleep (1 / 2), Post q]"
  "retry_trace q 2 = [Post q, Sleep (1 / 2), Post q, Sleep 1, Post q]"
  by (simp_all add: retry_trace_def base_delay_def upt_rec numeral_2_eq_2)

lemma attempt_body_last: "attempt_body c posted 2 \<noteq> Continue e d"
  using attempt_body_Continue(1) [of c posted 2 e d] by (auto simp: max_retries_def)

text \<open>
  A flush of a non-empty buffer ends at an attempt \<open>n < 3\<close> whose body returns or
  raises; every earlier attempt slept and went on.
\<close>

lemma flush_decided:
  assumes "buffer c \<noteq> []" and "flush c tr = (res, c', t)"
  obtains n where "n < max_retries"
    and "\<forall>k<n. retried (tr k)"
    and "(\<exists>data. attempt_body c (tr n) n = Returned data c' \<and> res = Inr data)
         \<or> (\<exists>e. attempt_body c (tr n) n = Raised e \<and> res = Inl e \<and> c' = c)"
    and "t = retry_trace (build_request c) n"
proof -
  let ?q = "build_request c"
  from assms have run0: "flush_attempts c ?q tr [0, 1, 2] None = (res, c', t)"
    by (simp add: flush_unroll)
  from run0 show ?thesis
  proof (cases rule: flush_attempts_ConsE)
    case (success data)
    then show ?thesis
      by (intro that [of 0]) (simp_all add: max_retries_def retry_trace_evals)
  next
    case (raise e)
    then show ?thesis
      by (intro that [of 0]) (simp_all add: max_retries_def retry_trace_evals)
  next
    case retry0: (retry e0 d0 t0)
    have d0: "d0 = base_delay * 2 ^ 0"
      using attempt_body_Continue(2) [OF retry0(1)] by simp
    have before1: "\<forall>k<1. retried (tr k)"
      using attempt_body_Continue_retried [OF retry0(1)] by simp
    from retry0(2) show ?thesis
    proof (cases rule: flush_attempts_ConsE)
      case (success data)
      with retry0(3) d0 before1 show ?thesis
        by (intro that [of 1]) (simp_all add: max_retries_def retry_trace_evals base_delay_def)
    next
      case (raise e)
      with retry0(3) d0 before1 show ?thesis
        by (intro that [of 1]) (simp_all add: max_retries_def retry_trace_evals base_delay_def)
    next
      case retry1: (retry e1 d1 t1)
      have d1: "d1 = base_delay * 2 ^ 1"
        using attempt_body_Continue(2) [OF retry1(1)] by simp
      have before2: "\<forall>k<2. retried (tr k)"
      proof (intro allI impI)
        fix k :: nat
        assume "k < 2"
        then have "k = 0 \<or> k = 1" by auto
        then show "retried (tr k)"
          using attempt_body_Continue_retried [OF retry0(1)]
            attempt_body_Continue_retried [OF retry1(1)]
          by auto
      qed
      from retry1(2) show ?thesis
      proof (cases rule: flush_attempts_ConsE)
        case (success data)
        with retry0(3) retry1(3) d0 d1 before2 show ?thesis
          by (intro that [of 2])
            (simp_all add: max_retries_def retry_trace_evals base_delay_def)
      next
        case (raise e)
        with retry0(3) retry1(3) d0 d1 before2 show ?thesis
          by (intro that [of 2])
            (simp_all add: max_retries_def retry_trace_evals base_delay_def)
      next
        case (retry e2 d2 t2)
        with attempt_body_last show ?thesis by blast
      qed
    qed
  qed
qed

subsection \<open>What the body of an attempt raises\<close>

lemma py_in_error: "py_in k v = Inl e \<Longrightarrow> e = TypeError"
  by (cases v) auto

lemma py_getitem_error: "py_getitem v k = Inl e \<Longrightarrow> e = TypeError \<or> e = KeyError k"
  by (cases v) (auto split: option.splits)

lemma on_success_error:
  "on_success c r = Inl e \<Longrightarrow> e = TypeError \<or> e = KeyError ''execution_id''"
  by (auto simp: on_success_def Let_def split: sum.splits if_splits
      dest: py_in_error py_getitem_error)

lemma with_error_field_error:
  "with_error_field m r = Inl e \<Longrightarrow> e = TypeError \<or> e = KeyError ''error''"
  by (auto simp: with_error_field_def split: option.splits sum.splits if_splits
      dest: py_in_error py_getitem_error)


lemma with_error_field_object:
  "object_body r \<Longrightarrow> \<exists>msg. with_error_field m r = Inr msg"
  by (auto simp: with_error_field_def object_body_def dict_has_def dict_get_def
      split: option.splits pyval.splits)

lemma attempt_body_ingest_error:
  assumes "attempt_body c posted a = Raised (SurfaIngestError m s x)"
  obtains r where "posted = Response r" "s = status_code r" "x = take 500 (body_text r)"
    "\<not> (200 \<le> s \<and> s < 300)" "s \<notin> {401, 403}"
    "s \<in> retry_statuses \<longrightarrow> \<not> a < max_retries - 1 \<and> m = ''Server error: '' @ str_int s"
proof (cases posted)
  case (Response r)
  from assms have "s = status_code r \<and> x = take 500 (body_text r)
      \<and> \<not> (200 \<le> s \<and> s < 300) \<and> s \<notin> {401, 403}
      \<and> (s \<in> retry_statuses \<longrightarrow> \<not> a < max_retries - 1 \<and> m = ''Server error: '' @ str_int s)"
    unfolding Response attempt_body_def retry_or_raise_def
    by (auto split: if_splits sum.splits prod.splits
        dest: on_success_error with_error_field_error)
  with Response show ?thesis by (intro that [of r]) auto
next
  case (Timeout msg)
  with assms show ?thesis
    by (simp add: attempt_body_def retry_or_raise_def split: if_splits)
next
  case (ConnectionError msg)
  with assms show ?thesis
    by (simp add: attempt_body_def retry_or_raise_def split: if_splits)
next
  case (RequestException msg)
  with assms show ?thesis by (simp add: attempt_body_def)
qed

lemma attempt_body_retryable:
  assumes "status_code r \<in> retry_statuses"
  shows "attempt_body c (Response r) a =
           retry_or_raise
             (SurfaIngestError (''Server error: '' @ str_int (status_code r))
                (status_code r) (take 500 (body_text r))) a"
  using assms by (auto simp: attempt_body_def retry_statuses_def)

lemma attempt_body_other_status:
  assumes "\<not> (200 \<le> status_code r \<and> status_code r < 300)" and "status_code r \<notin> {401, 403}"
    and "status_code r \<notin> retry_statuses"
    and "400 \<le> status_code r \<and> status_code r < 500 \<Longrightarrow> object_body r"
  obtains msg where
    "attempt_body c (Response r) a =
       Raised (SurfaIngestError msg (status_code r) (take 500 (body_text r)))"
proof (cases "400 \<le> status_code r \<and> status_code r < 500")
  case True
  with assms(4) have "object_body r" by simp
  then obtain msg where
    "with_error_field (''Client error: '' @ str_int (status_code r)) r = Inr msg"
    using with_error_field_object by blast
  with True assms(1-3) show ?thesis
    by (intro that [of msg]) (simp add: attempt_body_def)
next
  case False
  with assms(1-3) show ?thesis
    by (intro that [of "''Server error: '' @ str_int (status_code r)"])
      (auto simp: attempt_body_def)
qed



subsection \<open>Running the attempts forward\<close>

lemma retry_or_raise_evals:
  "retry_or_raise e 0 = Continue e (1 / 2)"
  "retry_or_raise e (Suc 0) = Continue e 1"
  "retry_or_raise e 2 = Raised e"
  by (simp_all add: retry_or_raise_def max_retries_def base_delay_def)

lemma flush_ends_at_0:
  assumes "buffer c \<noteq> []"
  shows "attempt_body c (tr 0) 0 = Raised e \<Longrightarrow>
           flush c tr = (Inl e, c, [Post (build_request c)])"
    and "attempt_body c (tr 0) 0 = Returned data c' \<Longrightarrow>
           flush c tr = (Inr data, c', [Post (build_request c)])"
  using assms by (simp_all add: flush_unroll)

lemma flush_ends_at_2:
  assumes "buffer c \<noteq> []"
    and "attempt_body c (tr 0) 0 = Continue e0 d0"
    and "attempt_body c (tr 1) 1 = Continue e1 d1"
  shows "attempt_body c (tr 2) 2 = Raised e \<Longrightarrow>
           flush c tr =
             (Inl e, c, [Post (build_request c), Sleep d0, Post (build_request c), Sleep d1,
                         Post (build_request c)])"
    and "attempt_body c (tr 2) 2 = Returned data c' \<Longrightarrow>
           flush c tr =
             (Inr data, c', [Post (build_request c), Sleep d0, Post (build_request c), Sleep d1,
                             Post (build_request c)])"
  using assms by (simp_all add: flush_unroll add_io_def)

lemma flush_ends_at_1:
  assumes "buffer c \<noteq> []"
    and "attempt_body c (tr 0) 0 = Continue e0 d0"
  shows "attempt_body c (tr 1) 1 = Raised e \<Longrightarrow>
           flush c tr = (Inl e, c, [Post (build_request c), Sleep d0, Post (build_request c)])"
    and "attempt_body c (tr 1) 1 = Returned data c' \<Longrightarrow>
           flush c tr =
             (Inr data, c', [Post (build_request c), Sleep d0, Post (build_request c)])"
  using assms by (simp_all add: flush_unroll add_io_def)

text \<open>
  The flush ends at the first attempt whose outcome is not a retried one, and at the
  third attempt at the latest.
\<close>

lemma flush_decided_at:
  assumes "buffer c \<noteq> []" and "n < max_retries" and "\<forall>k<n. retried (tr k)"
  shows "attempt_body c (tr n) n = Raised e \<Longrightarrow>
           flush c tr = (Inl e, c, retry_trace (build_request c) n)"
    and "attempt_body c (tr n) n = Returned data c' \<Longrightarrow>
           flush c tr = (Inr data, c', retry_trace (build_request c) n)"
proof -
  from assms(2) have "n = 0 \<or> n = 1 \<or> n = 2"
    by (auto simp: max_retries_def)
  then consider "n = 0" | "n = 1" | "n = 2"
    by blast
  then have "(attempt_body c (tr n) n = Raised e \<longrightarrow>
        flush c tr = (Inl e, c, retry_trace (build_request c) n))
      \<and> (attempt_body c (tr n) n = Returned data c' \<longrightarrow>
        flush c tr = (Inr data, c', retry_trace (build_request c) n))"
  proof cases
    case 1
    with flush_ends_at_0 [of c tr, OF assms(1)] show ?thesis
      by (simp add: retry_trace_evals)
  next
    case 2
    with assms(3) have "retried (tr 0)" by simp
    then obtain e0 where "attempt_body c (tr 0) 0 = Continue e0 (base_delay * 2 ^ 0)"
      using attempt_body_retried [of "tr 0" 0 c] by (auto simp: max_retries_def)
    from flush_ends_at_1 [of c tr, OF assms(1) this] 2 show ?thesis
      by (simp add: retry_trace_evals base_delay_def)
  next
    case 3
    with assms(3) have "retried (tr 0)" "retried (tr 1)" by simp_all
    then obtain e0 e1 where "attempt_body c (tr 0) 0 = Continue e0 (base_delay * 2 ^ 0)"
      "attempt_body c (tr 1) 1 = Continue e1 (base_delay * 2 ^ 1)"
      using attempt_body_retried [of "tr 0" 0 c] attempt_body_retried [of "tr 1" 1 c]
      by (auto simp: max_retries_def)
    from flush_ends_at_2 [of c tr, OF assms(1) this] 3 show ?thesis
      by (simp add: retry_trace_evals base_delay_def)
  qed
  then show "attempt_body c (tr n) n = Raised e \<Longrightarrow>
      flush c tr = (Inl e, c, retry_trace (build_request c) n)"
    and "attempt_body c (tr n) n = Returned data c' \<Longrightarrow>
      flush c tr = (Inr data, c', retry_trace (build_request c) n)"
    by simp_all
qed

subsection \<open>The execution id\<close>

lemma on_success_execution_id:
  assumes "on_success c r = Inr (data, c')" and "execution_id c = VNone"
  shows "execution_id c' =
           (case data of
              VDict d \<Rightarrow> (case dict_get d ''execution_id'' of None \<Rightarrow> VNone | Some v \<Rightarrow> v)
            | _ \<Rightarrow> VNone)"
proof -
  have d: "(case body_json r of None \<Rightarrow> VDict [] | Some j \<Rightarrow> j) = data"
    using on_success_shape(4) [OF assms(1)] by simp
  from assms show ?thesis
    unfolding on_success_def Let_def d
    by (cases data)
      (auto simp: dict_has_def dict_get_def split: if_splits option.splits sum.splits)
qed

lemma flush_execution_id:
  assumes "flush c tr = (res, c', t)"
  shows "execution_id c \<noteq> VNone \<Longrightarrow> execution_id c' = execution_id c"
    and "execution_id c = VNone \<Longrightarrow>
         execution_id c' =
           (case res of
              Inl e \<Rightarrow> VNone
            | Inr data \<Rightarrow>
                (case data of
                   VDict d \<Rightarrow>
                     (case dict_get d ''execution_id'' of None \<Rightarrow> VNone | Some v \<Rightarrow> v)
                 | _ \<Rightarrow> VNone))"
proof -
  show "execution_id c' = execution_id c" if "execution_id c \<noteq> VNone"
  proof (cases "buffer c = []")
    case True
    with assms show ?thesis by (simp add: flush_def)
  next
    case False
    from flush_outcome [OF assms False] that show ?thesis
      by (cases res) (auto dest: on_success_shape(2))
  qed
  show "execution_id c' =
          (case res of
             Inl e \<Rightarrow> VNone
           | Inr data \<Rightarrow>
               (case data of
                  VDict d \<Rightarrow>
                    (case dict_get d ''execution_id'' of None \<Rightarrow> VNone | Some v \<Rightarrow> v)
                | _ \<Rightarrow> VNone))"
    if "execution_id c = VNone"
  proof (cases "buffer c = []")
    case True
    with assms that show ?thesis by (auto simp: flush_def)
  next
    case False
    from flush_outcome [OF assms False] that show ?thesis
      by (cases res) (auto dest: on_success_execution_id)
  qed
qed

lemma track_raw_execution_id:
  assumes "execution_id c \<noteq> VNone"
  shows "execution_id (fst (snd (track_raw c tr event))) = execution_id c"
proof (cases "validate_event event")
  case (Inl e)
  then show ?thesis by (cases e) (simp_all add: track_raw_def)
next
  case (Inr ok)
  let ?c1 = "c\<lparr>buffer := buffer c @ [event]\<rparr>"
  obtain res c2 t where f: "flush ?c1 tr = (res, c2, t)"
    by (cases "flush ?c1 tr")
  from flush_execution_id(1) [OF f] assms have "execution_id c2 = execution_id c"
    by simp
  with Inr f show ?thesis
    by (cases res) (simp_all add: track_raw_def Let_def)
qed

lemma after_execution_id:
  assumes "execution_id c \<noteq> VNone"
  shows "execution_id (after c x) = execution_id c"
proof (cases x)
  case (Pair call tr)
  show ?thesis
  proof (cases call)
    case (Call_track event)
    with Pair assms show ?thesis
      by (simp add: track_def track_raw_execution_id)
  next
    case Call_flush
    obtain res c' t where f: "flush c tr = (res, c', t)"
      by (cases "flush c tr")
    from flush_execution_id(1) [OF f assms] f Pair Call_flush show ?thesis
      by simp
  next
    case (Call_set_runtime provider model mode extra kwargs)
    with Pair show ?thesis
      by (auto simp: set_runtime_def Let_def split: sum.splits if_splits)
  qed
qed

lemma run_execution_id:
  "execution_id c \<noteq> VNone \<Longrightarrow> execution_id (run c calls) = execution_id c"
  unfolding run_def
proof (induction calls arbitrary: c)
  case Nil
  then show ?case by simp
next
  case (Cons x calls)
  from Cons.prems have "execution_id (after c x) = execution_id c"
    by (rule after_execution_id)
  with Cons.IH [of "after c x"] Cons.prems show ?case by simp
qed

lemma run_append: "run c (xs @ ys) = run (run c xs) ys"
  by (simp add: run_def)

lemma on_success_stores:
  assumes "body_json r = Some (VDict d)" and "execution_id c = VNone"
  shows "\<exists>c'. on_success c r = Inr (VDict d, c')
           \<and> execution_id c' =
               (case dict_get d ''execution_id'' of None \<Rightarrow> VNone | Some v \<Rightarrow> v)"
  using assms
  by (auto simp: on_success_def Let_def dict_has_def dict_get_def split: option.splits)

lemma flush_stores_id:
  assumes "buffer c \<noteq> []" and "execution_id c = VNone" and "n < max_retries"
    and "\<forall>k<n. retried (tr k)" and "tr n = Response r"
    and "200 \<le> status_code r" and "status_code r < 300" and "body_json r = Some (VDict d)"
  shows "\<exists>c'. flush c tr = (Inr (VDict d), c', retry_trace (build_request c) n)
           \<and> execution_id c' =
               (case dict_get d ''execution_id'' of None \<Rightarrow> VNone | Some v \<Rightarrow> v)"
proof -
  from on_success_stores [OF assms(8,2)] obtain c' where
    ok: "on_success c r = Inr (VDict d, c')"
    and stored: "execution_id c' =
      (case dict_get d ''execution_id'' of None \<Rightarrow> VNone | Some v \<Rightarrow> v)"
    by blast
  from ok assms(5-7) have "attempt_body c (tr n) n = Returned (VDict d) c'"
    by (simp add: attempt_body_def)
  from flush_decided_at(2) [of c n tr, OF assms(1,3,4) this] stored show ?thesis
    by blast
qed

lemma flush_returns_response:
  assumes "buffer c \<noteq> []" and "flush c tr = (Inr data, c', t)"
  shows "\<exists>n r. n < max_retries \<and> (\<forall>k<n. retried (tr k)) \<and> tr n = Response r
           \<and> 200 \<le> status_code r \<and> status_code r < 300
           \<and> data = (case body_json r of None \<Rightarrow> VDict [] | Some j \<Rightarrow> j)
           \<and> t = retry_trace (build_request c) n"
proof -
  from assms obtain n where n: "n < max_retries" "\<forall>k<n. retried (tr k)"
    and last: "attempt_body c (tr n) n = Returned data c'"
    and t: "t = retry_trace (build_request c) n"
    by (rule flush_decided) auto
  from last obtain r where "tr n = Response r" "200 \<le> status_code r" "status_code r < 300"
    "on_success c r = Inr (data, c')"
    by (rule attempt_body_Returned)
  with n t on_success_shape(4) [of c r data c'] show ?thesis by blast
qed

lemma first_stored_id_persists:
  assumes "execution_id (run c before) = VNone"
    and "flush (run c before) tr = (Inr (VDict d), c', t)"
    and "dict_get d ''execution_id'' = Some v" and "v \<noteq> VNone"
  shows "execution_id (run c (before @ (Call_flush, tr) # later)) = v"
proof -
  from flush_execution_id(2) [OF assms(2,1)] assms(3) have stored: "execution_id c' = v"
    by simp
  have "run c (before @ (Call_flush, tr) # later) = run c' later"
    using assms(2) by (simp add: run_append) (simp add: run_def)
  with run_execution_id [of c' later] stored assms(4) show ?thesis by simp
qed

text \<open>
  C3. \<open>execution_id\<close> is write-once. Once it is not \<open>None\<close>, no sequence of tracking
  calls, flushes and runtime assignments changes it, whatever the server answers. A
  flush that starts without one leaves it absent when it raises. A flush that returns
  returns the parsed body of the 2xx response that ended it, the response of the first
  attempt that was not retried; when that body is a JSON object and no id is stored yet,
  the flush stores the \<open>execution_id\<close> of that body (and stores none when the body has
  none). The id stored by the first flush that returns one is the client's id after every
  later call.
\<close>

theorem execution_id_write_once:
  "(execution_id c \<noteq> VNone \<longrightarrow> execution_id (run c calls) = execution_id c)
   \<and> (flush c tr = (res, c', t) \<longrightarrow>
        (execution_id c \<noteq> VNone \<longrightarrow> execution_id c' = execution_id c)
        \<and> (execution_id c = VNone \<longrightarrow>
             execution_id c' =
               (case res of
                  Inl e \<Rightarrow> VNone
                | Inr data \<Rightarrow>
                    (case data of
                       VDict d \<Rightarrow>
                         (case dict_get d ''execution_id'' of None \<Rightarrow> VNone | Some v \<Rightarrow> v)
                     | _ \<Rightarrow> VNone))))
   \<and> (buffer c \<noteq> [] \<and> flush c tr = (Inr data, c', t) \<longrightarrow>
        (\<exists>n r. n < max_retries \<and> (\<forall>k<n. retried (tr k)) \<and> tr n = Response r
               \<and> 200 \<le> status_code r \<and> status_code r < 300
               \<and> data = (case body_json r of None \<Rightarrow> VDict [] | Some j \<Rightarrow> j)
               \<and> t = retry_trace (build_request c) n))
   \<and> (buffer c \<noteq> [] \<and> execution_id c = VNone \<and> n < max_retries
        \<and> (\<forall>k<n. retried (tr k)) \<and> tr n = Response r
        \<and> 200 \<le> status_code r \<and> status_code r < 300 \<and> body_json r = Some (VDict d) \<longrightarrow>
        (\<exists>c'. flush c tr = (Inr (VDict d), c', retry_trace (build_request c) n)
              \<and> execution_id c' =
                  (case dict_get d ''execution_id'' of None \<Rightarrow> VNone | Some v \<Rightarrow> v)))
   \<and> (execution_id (run c before) = VNone
        \<and> flush (run c before) tr = (Inr (VDict d), c', t)
        \<and> dict_get d ''execution_id'' = Some v \<and> v \<noteq> VNone \<longrightarrow>
        execution_id (run c (before @ (Call_flush, tr) # later)) = v)"
proof (intro conjI impI)
  assume "execution_id c \<noteq> VNone"
  then show "execution_id (run c calls) = execution_id c"
    by (rule run_execution_id)
next
  assume "flush c tr = (res, c', t)" and "execution_id c \<noteq> VNone"
  then show "execution_id c' = execution_id c"
    by (rule flush_execution_id(1))
next
  assume "flush c tr = (res, c', t)" and "execution_id c = VNone"
  then show "execution_id c' =
      (case res of
         Inl e \<Rightarrow> VNone
       | Inr data \<Rightarrow>
           (case data of
              VDict d \<Rightarrow> (case dict_get d ''execution_id'' of None \<Rightarrow> VNone | Some v \<Rightarrow> v)
            | _ \<Rightarrow> VNone))"
    by (rule flush_execution_id(2))
next
  assume "buffer c \<noteq> [] \<and> flush c tr = (Inr data, c', t)"
  then show "\<exists>n r. n < max_retries \<and> (\<forall>k<n. retried (tr k)) \<and> tr n = Response r
      \<and> 200 \<le> status_code r \<and> status_code r < 300
      \<and> data = (case body_json r of None \<Rightarrow> VDict [] | Some j \<Rightarrow> j)
      \<and> t = retry_trace (build_request c) n"
    using flush_returns_response by blast
next
  assume "buffer c \<noteq> [] \<and> execution_id c = VNone \<and> n < max_retries
      \<and> (\<forall>k<n. retried (tr k)) \<and> tr n = Response r
      \<and> 200 \<le> status_code r \<and> status_code r < 300 \<and> body_json r = Some (VDict d)"
  then show "\<exists>c'. flush c tr = (Inr (VDict d), c', retry_trace (build_request c) n)
      \<and> execution_id c' =
          (case dict_get d ''execution_id'' of None \<Rightarrow> VNone | Some v \<Rightarrow> v)"
    using flush_stores_id [of c n tr r d] by blast
next
  assume "execution_id (run c before) = VNone
      \<and> flush (run c before) tr = (Inr (VDict d), c', t)
      \<and> dict_get d ''execution_id'' = Some v \<and> v \<noteq> VNone"
  then show "execution_id (run c (before @ (Call_flush, tr) # later)) = v"
    using first_stored_id_persists [of c before tr d c' t v later] by blast
qed

lemma flush_stores_first_id:
  "flush demo_buffered (replay [Response (ok_response ''exec-1'')])
   = (Inr (VDict [(''execution_id'', VStr ''exec-1'')]),
      demo_client\<lparr>execution_id := VStr ''exec-1''\<rparr>,
      [Post (build_request demo_buffered)])"
proof -
  have "buffer demo_buffered \<noteq> []" by (simp add: fixture_defs)
  then show ?thesis
    by (simp add: flush_unroll) (simp add: flush_defs fixture_defs)
qed

lemma flush_keeps_known_id:
  "flush demo_with_id (replay [Response (ok_response ''exec-2'')])
   = (Inr (VDict [(''execution_id'', VStr ''exec-2'')]),
      demo_client\<lparr>execution_id := VStr ''exec-1''\<rparr>,
      [Post (build_request demo_with_id)])"
proof -
  have "buffer demo_with_id \<noteq> []" by (simp add: demo_with_id_def fixture_defs)
  then show ?thesis
    by (simp add: flush_unroll) (simp add: flush_defs demo_with_id_def fixture_defs)
qed

lemma track_after_first_flush:
  "track (demo_client\<lparr>execution_id := VStr ''exec-1''\<rparr>) tr demo_event
   = (Inr (), demo_with_id, [])"
  by (simp add: track_def track_raw_def validate_event_def dict_get_def demo_with_id_def
      fixture_defs)

text \<open>
  A client without an id: the first flush stores \<open>exec-1\<close> from its response; after one
  more event, a second successful flush whose response carries \<open>exec-2\<close> leaves
  \<open>exec-1\<close> in place.
\<close>

theorem execution_id_write_once_witness:
  "execution_id demo_buffered = VNone
   \<and> flush demo_buffered (replay [Response (ok_response ''exec-1'')])
     = (Inr (VDict [(''execution_id'', VStr ''exec-1'')]),
        demo_client\<lparr>execution_id := VStr ''exec-1''\<rparr>,
        [Post (build_request demo_buffered)])
   \<and> run demo_buffered
       [(Call_flush, replay [Response (ok_response ''exec-1'')]),
        (Call_track demo_event, replay []),
        (Call_flush, replay [Response (ok_response ''exec-2'')])]
     = demo_client\<lparr>execution_id := VStr ''exec-1''\<rparr>
   \<and> execution_id
       (run demo_buffered
          ([] @ (Call_flush, replay [Response (ok_response ''exec-1'')])
              # [(Call_track demo_event, replay []),
                 (Call_flush, replay [Response (ok_response ''exec-2'')])]))
     = VStr ''exec-1''"
proof -
  have absent: "execution_id demo_buffered = VNone"
    by (simp add: fixture_defs)
  have ran: "run demo_buffered
       [(Call_flush, replay [Response (ok_response ''exec-1'')]),
        (Call_track demo_event, replay []),
        (Call_flush, replay [Response (ok_response ''exec-2'')])]
     = demo_client\<lparr>execution_id := VStr ''exec-1''\<rparr>"
    by (simp add: run_def flush_stores_first_id track_after_first_flush flush_keeps_known_id)
  from execution_id_write_once
         [of demo_buffered "[]" "replay [Response (ok_response ''exec-1'')]" _ _ _ _ _ _
             "[(''execution_id'', VStr ''exec-1'')]" "[]" "VStr ''exec-1''"
             "[(Call_track demo_event, replay []),
               (Call_flush, replay [Response (ok_response ''exec-2'')])]"]
  have "execution_id (run demo_buffered []) = VNone
      \<and> flush (run demo_buffered []) (replay [Response (ok_response ''exec-1'')])
        = (Inr (VDict [(''execution_id'', VStr ''exec-1'')]),
           demo_client\<lparr>execution_id := VStr ''exec-1''\<rparr>,
           [Post (build_request demo_buffered)])
      \<and> dict_get [(''execution_id'', VStr ''exec-1'')] ''execution_id'' = Some (VStr ''exec-1'')
      \<and> VStr ''exec-1'' \<noteq> VNone \<longrightarrow>
      execution_id
       (run demo_buffered
          ([] @ (Call_flush, replay [Response (ok_response ''exec-1'')])
              # [(Call_track demo_event, replay []),
                 (Call_flush, replay [Response (ok_response ''exec-2'')])]))
      = VStr ''exec-1''"
    by blast
  with absent flush_stores_first_id ran show ?thesis
    by (simp add: run_def dict_get_def)
qed

subsection \<open>Retries and backoff\<close>


lemma with_error_field_TypeError: "with_error_field m r = Inl e \<Longrightarrow> e = TypeError"
proof (cases "body_json r")
  case None
  assume "with_error_field m r = Inl e"
  with None show ?thesis by (simp add: with_error_field_def)
next
  case (Some j)
  assume failed: "with_error_field m r = Inl e"
  show ?thesis
  proof (cases j)
    case (VDict d)
    have "dict_has d ''error'' \<Longrightarrow> \<exists>v. dict_get d ''error'' = Some v"
      by (auto simp: dict_has_def dict_get_def)
    with failed Some VDict show ?thesis
      by (auto simp: with_error_field_def split: if_splits)
  qed (use failed Some in \<open>auto simp: with_error_field_def split: if_splits\<close>)
qed










subsection \<open>Classification of error responses\<close>

lemma flush_ingest_error:
  assumes "buffer c \<noteq> []" and "flush c tr = (Inl (SurfaIngestError m s x), c', t)"
  obtains n r where "n < max_retries" "\<forall>k<n. retried (tr k)" "tr n = Response r"
    "s = status_code r"
    "x = take 500 (body_text r)" "t = retry_trace (build_request c) n"
    "\<not> (200 \<le> s \<and> s < 300)" "s \<notin> {401, 403}"
    "s \<in> retry_statuses \<longrightarrow> n = 2 \<and> m = ''Server error: '' @ str_int s"
proof -
  from assms obtain n where n: "n < max_retries" "\<forall>k<n. retried (tr k)"
    and last: "attempt_body c (tr n) n = Raised (SurfaIngestError m s x)"
    and t: "t = retry_trace (build_request c) n"
    by (rule flush_decided) auto
  from last obtain r where r: "tr n = Response r" "s = status_code r"
    "x = take 500 (body_text r)" "\<not> (200 \<le> s \<and> s < 300)" "s \<notin> {401, 403}"
    and exhausted: "s \<in> retry_statuses \<longrightarrow>
      \<not> n < max_retries - 1 \<and> m = ''Server error: '' @ str_int s"
    by (rule attempt_body_ingest_error)
  have "s \<in> retry_statuses \<longrightarrow> n = 2 \<and> m = ''Server error: '' @ str_int s"
    using exhausted n by (auto simp: max_retries_def)
  with n r t show ?thesis by (intro that [of n r])
qed

lemma attempt_body_other_any:
  assumes "\<not> (200 \<le> status_code r \<and> status_code r < 300)" and "status_code r \<notin> {401, 403}"
    and "status_code r \<notin> retry_statuses"
  shows "(\<exists>msg. attempt_body c (Response r) a =
            Raised (SurfaIngestError msg (status_code r) (take 500 (body_text r))))
         \<or> attempt_body c (Response r) a = Raised TypeError"
proof (cases "400 \<le> status_code r \<and> status_code r < 500")
  case True
  show ?thesis
  proof (cases "with_error_field (''Client error: '' @ str_int (status_code r)) r")
    case (Inl e)
    with with_error_field_TypeError [OF Inl] True assms show ?thesis
      by (simp add: attempt_body_def)
  next
    case (Inr msg)
    with True assms show ?thesis
      by (simp add: attempt_body_def)
  qed
next
  case False
  with assms show ?thesis
    by (auto simp: attempt_body_def)
qed

lemma attempt_body_server_error:
  assumes "\<not> (200 \<le> status_code r \<and> status_code r < 300)" and "status_code r \<notin> {401, 403}"
    and "status_code r \<notin> retry_statuses"
    and "\<not> (400 \<le> status_code r \<and> status_code r < 500)"
  shows "attempt_body c (Response r) a =
           Raised (SurfaIngestError (''Server error: '' @ str_int (status_code r))
                     (status_code r) (take 500 (body_text r)))"
  using assms by (auto simp: attempt_body_def)

text \<open>After a retried outcome on attempt 0 or 1 the flush goes on to a later attempt.\<close>

lemma flush_goes_on:
  assumes "buffer c \<noteq> []" and "n < max_retries - 1" and "\<forall>k\<le>n. retried (tr k)"
  shows "\<exists>res c' m. n < m \<and> m < max_retries
           \<and> flush c tr = (res, c', retry_trace (build_request c) m)"
proof -
  obtain res c' t where result: "flush c tr = (res, c', t)"
    by (cases "flush c tr") auto
  from assms(1) result obtain m where m: "m < max_retries"
    and decided: "(\<exists>data. attempt_body c (tr m) m = Returned data c' \<and> res = Inr data)
         \<or> (\<exists>e. attempt_body c (tr m) m = Raised e \<and> res = Inl e \<and> c' = c)"
    and t: "t = retry_trace (build_request c) m"
    by (rule flush_decided)
  have "n < m"
  proof (rule ccontr)
    assume "\<not> n < m"
    with assms(2,3) have "retried (tr m)" and "m < max_retries - 1" by simp_all
    from attempt_body_retried [OF this, of c] decided show False by auto
  qed
  with m result t show ?thesis by blast
qed

text \<open>
  C5, as the code has it. The statuses retried are 429, 500, 502, 503 and 504, and no
  other. Whatever attempt receives it, a response with any other status outside 2xx, 401
  and 403 (for instance 501) ends the flush there with no further request: it raises
  SurfaIngestError with the status and the first 500 characters of the response text (for
  a 4xx status, when the body is a JSON object or not JSON; a TypeError otherwise). A
  response with a retried status on the first or second attempt is followed by another
  attempt. When all three attempts get a retried outcome and the third is a response, the
  flush sleeps twice and raises the SurfaIngestError of the third response. Conversely a
  SurfaIngestError always carries the status of the last response received, every earlier
  outcome was a retried one, and when that status is a retried one the flush has made all
  three attempts.
\<close>

theorem ingest_error_classification:
  assumes "buffer c \<noteq> []"
  shows "retry_statuses = {429, 500, 502, 503, 504}
         \<and> (\<forall>r. retried (Response r) = (status_code r \<in> retry_statuses))
         \<and> (\<forall>n r. n < max_retries \<and> (\<forall>k<n. retried (tr k)) \<and> tr n = Response r
               \<and> \<not> (200 \<le> status_code r \<and> status_code r < 300)
               \<and> status_code r \<notin> {401, 403} \<and> status_code r \<notin> retry_statuses \<longrightarrow>
               (\<exists>e. flush c tr = (Inl e, c, retry_trace (build_request c) n)
                  \<and> ((\<exists>msg. e = SurfaIngestError msg (status_code r) (take 500 (body_text r)))
                       \<or> e = TypeError)
                  \<and> (\<not> (400 \<le> status_code r \<and> status_code r < 500) \<longrightarrow>
                       e = SurfaIngestError (''Server error: '' @ str_int (status_code r))
                             (status_code r) (take 500 (body_text r)))
                  \<and> (object_body r \<longrightarrow>
                       (\<exists>msg. e = SurfaIngestError msg (status_code r)
                                      (take 500 (body_text r))))))
         \<and> (\<forall>n r. n < max_retries - 1 \<and> (\<forall>k<n. retried (tr k)) \<and> tr n = Response r
               \<and> status_code r \<in> retry_statuses \<longrightarrow>
               (\<exists>res c' m. n < m \<and> m < max_retries
                  \<and> flush c tr = (res, c', retry_trace (build_request c) m)))
         \<and> (\<forall>r. retried (tr 0) \<and> retried (tr 1) \<and> tr 2 = Response r
               \<and> status_code r \<in> retry_statuses \<longrightarrow>
               flush c tr =
                 (Inl (SurfaIngestError (''Server error: '' @ str_int (status_code r))
                         (status_code r) (take 500 (body_text r))), c,
                  [Post (build_request c), Sleep (1 / 2), Post (build_request c), Sleep 1,
                   Post (build_request c)]))
         \<and> (\<forall>m s x c' t. flush c tr = (Inl (SurfaIngestError m s x), c', t) \<longrightarrow>
               c' = c
               \<and> (\<exists>n r. n < max_retries \<and> (\<forall>k<n. retried (tr k)) \<and> tr n = Response r
                     \<and> status_code r = s \<and> x = take 500 (body_text r)
                     \<and> t = retry_trace (build_request c) n
                     \<and> (s \<in> retry_statuses \<longrightarrow> n = 2)))"
proof (intro conjI allI impI)
  show "retry_statuses = {429, 500, 502, 503, 504}"
    by (simp add: retry_statuses_def)
next
  fix r
  show "retried (Response r) = (status_code r \<in> retry_statuses)"
    by simp
next
  fix n r
  assume h: "n < max_retries \<and> (\<forall>k<n. retried (tr k)) \<and> tr n = Response r
      \<and> \<not> (200 \<le> status_code r \<and> status_code r < 300)
      \<and> status_code r \<notin> {401, 403} \<and> status_code r \<notin> retry_statuses"
  let ?ingest = "\<lambda>msg. SurfaIngestError msg (status_code r) (take 500 (body_text r))"
  from h have n: "n < max_retries" "\<forall>k<n. retried (tr k)" by simp_all
  note ends = flush_decided_at(1) [of c n tr, OF assms n]
  from h attempt_body_other_any [of r c n]
  consider msg where "attempt_body c (tr n) n = Raised (?ingest msg)"
    | "attempt_body c (tr n) n = Raised TypeError"
    by auto
  then have shape: "\<exists>e. flush c tr = (Inl e, c, retry_trace (build_request c) n)
      \<and> ((\<exists>msg. e = ?ingest msg) \<or> e = TypeError)"
  proof cases
    case 1
    from ends [OF 1] show ?thesis by blast
  next
    case 2
    from ends [OF 2] show ?thesis by blast
  qed
  have server: "flush c tr =
      (Inl (?ingest (''Server error: '' @ str_int (status_code r))), c,
       retry_trace (build_request c) n)"
    if "\<not> (400 \<le> status_code r \<and> status_code r < 500)"
  proof -
    from h that have "attempt_body c (tr n) n =
        Raised (?ingest (''Server error: '' @ str_int (status_code r)))"
      using attempt_body_server_error [of r c n] by simp
    from ends [OF this] show ?thesis .
  qed
  have object: "\<exists>msg. flush c tr = (Inl (?ingest msg), c, retry_trace (build_request c) n)"
    if "object_body r"
  proof -
    from h that obtain msg where "attempt_body c (tr n) n = Raised (?ingest msg)"
      using attempt_body_other_status [of r c n] by auto
    from ends [OF this] show ?thesis by blast
  qed
  from shape server object
  show "\<exists>e. flush c tr = (Inl e, c, retry_trace (build_request c) n)
      \<and> ((\<exists>msg. e = ?ingest msg) \<or> e = TypeError)
      \<and> (\<not> (400 \<le> status_code r \<and> status_code r < 500) \<longrightarrow>
           e = ?ingest (''Server error: '' @ str_int (status_code r)))
      \<and> (object_body r \<longrightarrow> (\<exists>msg. e = ?ingest msg))"
    by force
next
  fix n r
  assume h: "n < max_retries - 1 \<and> (\<forall>k<n. retried (tr k)) \<and> tr n = Response r
      \<and> status_code r \<in> retry_statuses"
  then have "\<forall>k\<le>n. retried (tr k)"
    by (auto simp: le_less)
  with h flush_goes_on [OF assms, of n tr]
  show "\<exists>res c' m. n < m \<and> m < max_retries
      \<and> flush c tr = (res, c', retry_trace (build_request c) m)"
    by blast
next
  fix r
  assume h: "retried (tr 0) \<and> retried (tr 1) \<and> tr 2 = Response r
      \<and> status_code r \<in> retry_statuses"
  let ?e = "SurfaIngestError (''Server error: '' @ str_int (status_code r))
              (status_code r) (take 500 (body_text r))"
  from h have before: "\<forall>k<2. retried (tr k)"
    by (auto simp: less_2_cases_iff)
  from h have "attempt_body c (tr 2) 2 = Raised ?e"
    by (simp add: attempt_body_retryable retry_or_raise_evals)
  from flush_decided_at(1) [of c 2 tr, OF assms _ before this]
  show "flush c tr =
      (Inl ?e, c,
       [Post (build_request c), Sleep (1 / 2), Post (build_request c), Sleep 1,
        Post (build_request c)])"
    by (simp add: max_retries_def retry_trace_evals)
next
  fix m s x c' t
  assume raised: "flush c tr = (Inl (SurfaIngestError m s x), c', t)"
  from flush_outcome [OF raised assms] show "c' = c" by simp
  from assms raised
  show "\<exists>n r. n < max_retries \<and> (\<forall>k<n. retried (tr k)) \<and> tr n = Response r
          \<and> status_code r = s \<and> x = take 500 (body_text r)
          \<and> t = retry_trace (build_request c) n \<and> (s \<in> retry_statuses \<longrightarrow> n = 2)"
    by (rule flush_ingest_error) auto
qed

lemma flush_501:
  "flush demo_buffered
     (replay [Response (status_response 501), Response (ok_response ''exec-1'')])
   = (Inl (SurfaIngestError ''Server error: 501'' 501 []), demo_buffered,
      [Post (build_request demo_buffered)])"
proof -
  have "buffer demo_buffered \<noteq> []" by (simp add: fixture_defs)
  then show ?thesis
    by (simp add: flush_unroll) (simp add: flush_defs fixture_defs str_int_evals)
qed

text \<open>
  A response with status 501 is not retried: the flush raises after the first request,
  with no sleep, although the second attempt would have succeeded.
\<close>

theorem status_501_not_retried:
  "flush demo_buffered
     (replay [Response (status_response 501), Response (ok_response ''exec-1'')])
   = (Inl (SurfaIngestError ''Server error: 501'' 501 []), demo_buffered,
      [Post (build_request demo_buffered)])"
  by (rule flush_501)

lemma flush_503_501:
  "flush demo_buffered
     (replay [Response (status_response 503), Response (status_response 501),
              Response (ok_response ''exec-1'')])
   = (Inl (SurfaIngestError ''Server error: 501'' 501 []), demo_buffered,
      [Post (build_request demo_buffered), Sleep (1 / 2), Post (build_request demo_buffered)])"
proof -
  have "buffer demo_buffered \<noteq> []" by (simp add: fixture_defs)
  then show ?thesis
    by (simp add: flush_unroll) (simp add: flush_defs fixture_defs str_int_evals)
qed

text \<open>
  Three retried statuses exhaust the attempts; a 501 on the second attempt ends the flush
  there, although the third attempt would have succeeded.
\<close>

theorem ingest_error_classification_witness:
  "buffer demo_buffered \<noteq> []
   \<and> flush demo_buffered
       (replay [Response (status_response 503), Response (status_response 429),
                Response (status_response 503)])
     = (Inl (SurfaIngestError ''Server error: 503'' 503 []), demo_buffered,
        [Post (build_request demo_buffered), Sleep (1 / 2), Post (build_request demo_buffered),
         Sleep 1, Post (build_request demo_buffered)])
   \<and> flush demo_buffered
       (replay [Response (status_response 503), Response (status_response 501),
                Response (ok_response ''exec-1'')])
     = (Inl (SurfaIngestError ''Server error: 501'' 501 []), demo_buffered,
        [Post (build_request demo_buffered), Sleep (1 / 2), Post (build_request demo_buffered)])"
proof -
  have nonempty: "buffer demo_buffered \<noteq> []"
    by (simp add: fixture_defs)
  let ?tr = "replay [Response (status_response 503), Response (status_response 429),
                     Response (status_response 503)]"
  let ?tr' = "replay [Response (status_response 503), Response (status_response 501),
                      Response (ok_response ''exec-1'')]"
  from ingest_error_classification [OF nonempty, of ?tr]
  have exhausted: "retried (?tr 0) \<and> retried (?tr 1) \<and> ?tr 2 = Response r
      \<and> status_code r \<in> retry_statuses \<longrightarrow>
      flush demo_buffered ?tr =
        (Inl (SurfaIngestError (''Server error: '' @ str_int (status_code r))
                (status_code r) (take 500 (body_text r))), demo_buffered,
         [Post (build_request demo_buffered), Sleep (1 / 2), Post (build_request demo_buffered),
          Sleep 1, Post (build_request demo_buffered)])" for r
    by blast
  from exhausted [of "status_response 503"]
  have first: "flush demo_buffered ?tr =
      (Inl (SurfaIngestError ''Server error: 503'' 503 []), demo_buffered,
       [Post (build_request demo_buffered), Sleep (1 / 2), Post (build_request demo_buffered),
        Sleep 1, Post (build_request demo_buffered)])"
    by (simp add: replay_def status_response_def retry_statuses_def str_int_evals)
  with nonempty flush_503_501 show ?thesis by simp
qed

subsection \<open>Truncation of response content in errors\<close>

lemma with_error_field_given:
  assumes "body_json r = Some (VDict d)" and "dict_get d ''error'' = Some v"
  shows "with_error_field m r = Inr (m @ '' - '' @ py_str v)"
  using assms by (simp add: with_error_field_def dict_has_def dict_get_def)

text \<open>
  C7, as the code has it. What is cut to 500 characters is the response text that a
  SurfaIngestError carries: it is the first 500 characters of the text of the response
  that ended the flush. The structured \<open>error\<close> field of the body is appended whole, as
  \<open>str\<close> prints it, to the message of a SurfaAuthError and to the message of the
  SurfaIngestError of a client error, whichever attempt receives the response.
\<close>

theorem error_text_truncation:
  assumes "buffer c \<noteq> []"
  shows "(\<forall>m s x c' t. flush c tr = (Inl (SurfaIngestError m s x), c', t) \<longrightarrow>
            length x \<le> 500
            \<and> (\<exists>n r. n < max_retries \<and> (\<forall>k<n. retried (tr k)) \<and> tr n = Response r
                  \<and> s = status_code r \<and> x = take 500 (body_text r)
                  \<and> t = retry_trace (build_request c) n))
         \<and> (\<forall>n r d v. n < max_retries \<and> (\<forall>k<n. retried (tr k)) \<and> tr n = Response r
               \<and> status_code r \<in> {401, 403}
               \<and> body_json r = Some (VDict d) \<and> dict_get d ''error'' = Some v \<longrightarrow>
               flush c tr =
                 (Inl (SurfaAuthError
                         (''Authentication failed: '' @ str_int (status_code r) @ '' - ''
                          @ py_str v)), c,
                  retry_trace (build_request c) n))
         \<and> (\<forall>n r d v. n < max_retries \<and> (\<forall>k<n. retried (tr k)) \<and> tr n = Response r
               \<and> 400 \<le> status_code r \<and> status_code r < 500
               \<and> status_code r \<notin> {401, 403, 429}
               \<and> body_json r = Some (VDict d) \<and> dict_get d ''error'' = Some v \<longrightarrow>
               flush c tr =
                 (Inl (SurfaIngestError
                         (''Client error: '' @ str_int (status_code r) @ '' - '' @ py_str v)
                         (status_code r) (take 500 (body_text r))), c,
                  retry_trace (build_request c) n))
         \<and> (\<forall>s. py_str (VStr s) = s)"
proof (intro conjI allI impI)
  fix m s x c' t
  assume raised: "flush c tr = (Inl (SurfaIngestError m s x), c', t)"
  with assms obtain n r where "n < max_retries" "\<forall>k<n. retried (tr k)" "tr n = Response r"
    "s = status_code r" "x = take 500 (body_text r)" "t = retry_trace (build_request c) n"
    by (rule flush_ingest_error)
  then show "length x \<le> 500"
    and "\<exists>n r. n < max_retries \<and> (\<forall>k<n. retried (tr k)) \<and> tr n = Response r
          \<and> s = status_code r \<and> x = take 500 (body_text r)
          \<and> t = retry_trace (build_request c) n"
    by auto
next
  fix n r d v
  assume h: "n < max_retries \<and> (\<forall>k<n. retried (tr k)) \<and> tr n = Response r
      \<and> status_code r \<in> {401, 403}
      \<and> body_json r = Some (VDict d) \<and> dict_get d ''error'' = Some v"
  then have n: "n < max_retries" "\<forall>k<n. retried (tr k)" by simp_all
  from h have "attempt_body c (tr n) n =
      Raised (SurfaAuthError
                (''Authentication failed: '' @ str_int (status_code r) @ '' - '' @ py_str v))"
    by (auto simp: attempt_body_def with_error_field_given)
  from flush_decided_at(1) [of c n tr, OF assms n this]
  show "flush c tr =
      (Inl (SurfaAuthError
              (''Authentication failed: '' @ str_int (status_code r) @ '' - '' @ py_str v)), c,
       retry_trace (build_request c) n)" .
next
  fix n r d v
  assume h: "n < max_retries \<and> (\<forall>k<n. retried (tr k)) \<and> tr n = Response r
      \<and> 400 \<le> status_code r \<and> status_code r < 500
      \<and> status_code r \<notin> {401, 403, 429}
      \<and> body_json r = Some (VDict d) \<and> dict_get d ''error'' = Some v"
  then have n: "n < max_retries" "\<forall>k<n. retried (tr k)" by simp_all
  from h have "attempt_body c (tr n) n =
      Raised (SurfaIngestError
                (''Client error: '' @ str_int (status_code r) @ '' - '' @ py_str v)
                (status_code r) (take 500 (body_text r)))"
    by (auto simp: attempt_body_def with_error_field_given retry_statuses_def)
  from flush_decided_at(1) [of c n tr, OF assms n this]
  show "flush c tr =
      (Inl (SurfaIngestError
              (''Client error: '' @ str_int (status_code r) @ '' - '' @ py_str v)
              (status_code r) (take 500 (body_text r))), c,
       retry_trace (build_request c) n)" .
next
  fix s
  show "py_str (VStr s) = s" by simp
qed

lemma flush_long_auth_error:
  "flush demo_buffered (replay [Response auth_response])
   = (Inl (SurfaAuthError (''Authentication failed: 401 - '' @ long_text)), demo_buffered,
      [Post (build_request demo_buffered)])"
proof -
  have "buffer demo_buffered \<noteq> []" by (simp add: fixture_defs)
  then show ?thesis
    by (simp add: flush_unroll)
      (simp add: flush_defs fixture_defs auth_response_def str_int_evals)
qed

text \<open>
  A 401 response whose \<open>error\<close> field has 600 characters: the message of the
  SurfaAuthError raised contains the field whole, and has 629 characters.
\<close>

theorem auth_error_not_truncated:
  "flush demo_buffered (replay [Response auth_response])
   = (Inl (SurfaAuthError (''Authentication failed: 401 - '' @ long_text)), demo_buffered,
      [Post (build_request demo_buffered)])
   \<and> length (''Authentication failed: 401 - '' @ long_text) = 629"
  using flush_long_auth_error by (simp add: long_text_def)

lemma flush_503_long_auth_error:
  "flush demo_buffered (replay [Response (status_response 503), Response auth_response])
   = (Inl (SurfaAuthError (''Authentication failed: 401 - '' @ long_text)), demo_buffered,
      [Post (build_request demo_buffered), Sleep (1 / 2), Post (build_request demo_buffered)])"
proof -
  have "buffer demo_buffered \<noteq> []" by (simp add: fixture_defs)
  then show ?thesis
    by (simp add: flush_unroll)
      (simp add: flush_defs fixture_defs auth_response_def str_int_evals)
qed

text \<open>The same 401 response received on the second attempt, after a 503.\<close>

theorem error_text_truncation_witness:
  "buffer demo_buffered \<noteq> []
   \<and> flush demo_buffered (replay [Response (status_response 503), Response auth_response])
     = (Inl (SurfaAuthError (''Authentication failed: 401 - '' @ long_text)), demo_buffered,
        [Post (build_request demo_buffered), Sleep (1 / 2), Post (build_request demo_buffered)])
   \<and> length (''Authentication failed: 401 - '' @ long_text) = 629"
proof -
  have nonempty: "buffer demo_buffered \<noteq> []"
    by (simp add: fixture_defs)
  let ?tr = "replay [Response (status_response 503), Response auth_response]"
  from error_text_truncation [OF nonempty, of ?tr]
  have auth: "n < max_retries \<and> (\<forall>k<n. retried (?tr k)) \<and> ?tr n = Response r
      \<and> status_code r \<in> {401, 403}
      \<and> body_json r = Some (VDict d) \<and> dict_get d ''error'' = Some v \<longrightarrow>
      flush demo_buffered ?tr =
        (Inl (SurfaAuthError
                (''Authentication failed: '' @ str_int (status_code r) @ '' - ''
                 @ py_str v)), demo_buffered,
         retry_trace (build_request demo_buffered) n)" for n r d v
    by blast
  from auth [of 1 auth_response "[(''error'', VStr long_text)]" "VStr long_text"]
  have "flush demo_buffered ?tr
        = (Inl (SurfaAuthError (''Authentication failed: 401 - '' @ long_text)), demo_buffered,
           [Post (build_request demo_buffered), Sleep (1 / 2),
            Post (build_request demo_buffered)])"
    by (simp add: replay_def auth_response_def status_response_def dict_get_def
        max_retries_def retry_statuses_def str_int_evals retry_trace_evals)
  with nonempty show ?thesis by (simp add: long_text_def)
qed

subsection \<open>Events appended while a flush is in progress\<close>

lemma flush_attempts_live_ConsE:
  assumes "flush_attempts_live c req tr late (a # as) le = (res, c', t)"
  obtains (success) data where
      "attempt_body (c\<lparr>buffer := buffer c @ late a\<rparr>) (tr a) a = Returned data c'"
      "res = Inr data" "t = [Post req]"
  | (raise) e where
      "attempt_body (c\<lparr>buffer := buffer c @ late a\<rparr>) (tr a) a = Raised e"
      "res = Inl e" "c' = c\<lparr>buffer := buffer c @ late a\<rparr>" "t = [Post req]"
  | (retry) e d t' where
      "attempt_body (c\<lparr>buffer := buffer c @ late a\<rparr>) (tr a) a = Continue e d"
      "flush_attempts_live (c\<lparr>buffer := buffer c @ late a\<rparr>) req tr late as (Some e)
       = (res, c', t')"
      "t = Post req # Sleep d # t'"
proof (cases "attempt_body (c\<lparr>buffer := buffer c @ late a\<rparr>) (tr a) a")
  case (Returned data c1)
  with assms have "res = Inr data" "c1 = c'" "t = [Post req]"
    by (simp_all add: Let_def)
  with Returned show ?thesis
    by (intro success [of data]) simp_all
next
  case (Raised e)
  with assms have "res = Inl e" "c' = c\<lparr>buffer := buffer c @ late a\<rparr>" "t = [Post req]"
    by (simp_all add: Let_def)
  with Raised show ?thesis
    by (intro raise [of e]) simp_all
next
  case (Continue e d)
  obtain res1 c1 t1 where rest:
    "flush_attempts_live (c\<lparr>buffer := buffer c @ late a\<rparr>) req tr late as (Some e)
     = (res1, c1, t1)"
    by (cases "flush_attempts_live (c\<lparr>buffer := buffer c @ late a\<rparr>) req tr late as (Some e)")
  from assms Continue rest have "res1 = res" "c1 = c'" "t = Post req # Sleep d # t1"
    by (simp_all add: Let_def add_io_def)
  with rest Continue show ?thesis
    by (intro retry [of e d t1]) simp_all
qed

lemma flush_live_unroll:
  "buffer c \<noteq> [] \<Longrightarrow>
   flush_live c tr late = flush_attempts_live c (build_request c) tr late [0, 1, 2] None"
  by (simp only: flush_live_def attempts_list if_False)

lemma flush_attempts_live_alone:
  "flush_attempts_live c req tr (\<lambda>n. []) as le = flush_attempts c req tr as le"
  by (induction as arbitrary: le) (simp_all split: attempt_result.splits)

lemma attempt_body_clears:
  assumes "attempt_body (c\<lparr>buffer := b\<rparr>) posted a = Returned data c'"
  shows "c' = c\<lparr>execution_id := execution_id c',
                runtime_info_emitted := runtime_info_emitted c', buffer := []\<rparr>"
proof -
  from assms obtain r where "on_success (c\<lparr>buffer := b\<rparr>) r = Inr (data, c')"
    by (rule attempt_body_Returned)
  from on_success_shape(1) [OF this] show ?thesis by simp
qed

lemma late_upto:
  "concat (map late [0..<Suc 0]) = late 0"
  "concat (map late [0..<Suc (Suc 0)]) = late 0 @ late 1"
  "concat (map late [0..<2]) = late 0 @ late 1"
  "concat (map late [0..<Suc 2]) = late 0 @ late 1 @ late 2"
  "concat (map late [0..<3]) = late 0 @ late 1 @ late 2"
  by (simp_all add: upt_rec numeral_2_eq_2 numeral_3_eq_3)

text \<open>
  A flush with appends in between ends at an attempt \<open>n < 3\<close>. When it returns, the
  buffer is empty; when it raises, the client is the one it started from with everything
  appended up to attempt \<open>n\<close> behind its buffer.
\<close>

lemma flush_live_decided:
  assumes "buffer c \<noteq> []" and "flush_live c tr late = (res, c', t)"
  obtains n where "n < max_retries" and "t = retry_trace (build_request c) n"
    and "(\<exists>data. res = Inr data
            \<and> c' = c\<lparr>execution_id := execution_id c',
                      runtime_info_emitted := runtime_info_emitted c', buffer := []\<rparr>)
         \<or> (\<exists>e. res = Inl e \<and> c' = c\<lparr>buffer := buffer c @ concat (map late [0..<Suc n])\<rparr>)"
proof -
  let ?q = "build_request c"
  from assms have run0: "flush_attempts_live c ?q tr late [0, 1, 2] None = (res, c', t)"
    by (simp add: flush_live_unroll)
  from run0 show ?thesis
  proof (cases rule: flush_attempts_live_ConsE)
    case (success data)
    from attempt_body_clears [OF success(1)] success(2,3) show ?thesis
      by (intro that [of 0]) (simp_all add: max_retries_def retry_trace_evals)
  next
    case (raise e)
    then show ?thesis
      by (intro that [of 0]) (simp_all add: max_retries_def retry_trace_evals late_upto)
  next
    case retry0: (retry e0 d0 t0)
    have d0: "d0 = 1 / 2"
      using attempt_body_Continue(2) [OF retry0(1)] by (simp add: base_delay_def)
    from retry0(2) show ?thesis
    proof (cases rule: flush_attempts_live_ConsE)
      case (success data)
      from attempt_body_clears [where c = c and b = "buffer c @ late 0 @ late 1"] success(1)
      have "c' = c\<lparr>execution_id := execution_id c',
                     runtime_info_emitted := runtime_info_emitted c', buffer := []\<rparr>"
        by simp
      with success(2,3) retry0(3) d0 show ?thesis
        by (intro that [of 1]) (simp_all add: max_retries_def retry_trace_evals)
    next
      case (raise e)
      with retry0(3) d0 show ?thesis
        by (intro that [of 1]) (simp_all add: max_retries_def retry_trace_evals late_upto)
    next
      case retry1: (retry e1 d1 t1)
      have d1: "d1 = 1"
        using attempt_body_Continue(2) [OF retry1(1)] by (simp add: base_delay_def)
      from retry1(2) show ?thesis
      proof (cases rule: flush_attempts_live_ConsE)
        case (success data)
        from attempt_body_clears
               [where c = c and b = "buffer c @ late 0 @ late 1 @ late 2"] success(1)
        have "c' = c\<lparr>execution_id := execution_id c',
                       runtime_info_emitted := runtime_info_emitted c', buffer := []\<rparr>"
          by simp
        with success(2,3) retry0(3) retry1(3) d0 d1 show ?thesis
          by (intro that [of 2]) (simp_all add: max_retries_def retry_trace_evals)
      next
        case (raise e)
        with retry0(3) retry1(3) d0 d1 show ?thesis
          by (intro that [of 2]) (simp_all add: max_retries_def retry_trace_evals late_upto)
      next
        case (retry e2 d2 t2)
        with attempt_body_last show ?thesis by blast
      qed
    qed
  qed
qed

lemma events_to_send_cases:
  "events_to_send c = buffer c \<or> (\<exists>rt. events_to_send c = runtime_info_event rt # buffer c)"
  by (auto simp: events_to_send_def split: option.splits)

text \<open>
  C8, as the code has it. The client has no lock and no snapshot-and-swap. A flush sends
  a copy of the buffer taken before the first attempt: every request of the flush carries
  that batch (the buffered events, after the runtime-info event when one is due), so
  nothing appended while the flush is in progress is part of it. A flush that raises
  leaves the live buffer as it is: the events it started with, then everything appended
  meanwhile. A flush that returns has emptied the whole live buffer, whatever was appended
  meanwhile, and has changed nothing else but \<open>execution_id\<close> and the runtime-info mark.
  With no append in between it is the sequential flush.
\<close>

theorem flush_clears_live_buffer:
  assumes "buffer c \<noteq> []"
  shows "flush_live c tr (\<lambda>n. []) = flush c tr
         \<and> p_events (q_json (build_request c)) = events_to_send c
         \<and> (events_to_send c = buffer c
              \<or> (\<exists>rt. events_to_send c = runtime_info_event rt # buffer c))
         \<and> (\<forall>res c' t. flush_live c tr late = (res, c', t) \<longrightarrow>
               (\<exists>n. n < max_retries \<and> t = retry_trace (build_request c) n
                  \<and> (case res of
                        Inr data \<Rightarrow>
                          c' = c\<lparr>execution_id := execution_id c',
                                  runtime_info_emitted := runtime_info_emitted c',
                                  buffer := []\<rparr>
                      | Inl e \<Rightarrow>
                          c' = c\<lparr>buffer := buffer c @ concat (map late [0..<Suc n])\<rparr>)))"
proof (intro conjI allI impI)
  show "flush_live c tr (\<lambda>n. []) = flush c tr"
    by (simp add: flush_live_def flush_def flush_attempts_live_alone)
next
  show "p_events (q_json (build_request c)) = events_to_send c"
    by (simp add: build_request_def build_payload_def)
next
  show "events_to_send c = buffer c
      \<or> (\<exists>rt. events_to_send c = runtime_info_event rt # buffer c)"
    by (rule events_to_send_cases)
next
  fix res c' t
  assume "flush_live c tr late = (res, c', t)"
  with assms obtain n where "n < max_retries" "t = retry_trace (build_request c) n"
    "(\<exists>data. res = Inr data
        \<and> c' = c\<lparr>execution_id := execution_id c',
                  runtime_info_emitted := runtime_info_emitted c', buffer := []\<rparr>)
     \<or> (\<exists>e. res = Inl e \<and> c' = c\<lparr>buffer := buffer c @ concat (map late [0..<Suc n])\<rparr>)"
    by (rule flush_live_decided)
  then show "\<exists>n. n < max_retries \<and> t = retry_trace (build_request c) n
      \<and> (case res of
            Inr data \<Rightarrow>
              c' = c\<lparr>execution_id := execution_id c',
                      runtime_info_emitted := runtime_info_emitted c', buffer := []\<rparr>
          | Inl e \<Rightarrow> c' = c\<lparr>buffer := buffer c @ concat (map late [0..<Suc n])\<rparr>)"
    by (intro exI [of _ n]) auto
qed

lemmas live_defs = live_client_def late_event_def appended_during_def

lemma flush_live_late_append:
  "flush_live live_client (replay [Response (ok_response ''exec-1'')]) (appended_during 0)
   = (Inr (VDict [(''execution_id'', VStr ''exec-1'')]),
      live_client\<lparr>execution_id := VStr ''exec-1'', buffer := []\<rparr>,
      [Post (build_request live_client)])"
proof -
  have "buffer live_client \<noteq> []" by (simp add: live_defs fixture_defs)
  then show ?thesis
    by (simp add: flush_live_unroll) (simp add: flush_defs fixture_defs live_defs)
qed

lemma flush_live_late_append_401:
  "flush_live live_client (replay [Response (status_response 401)]) (appended_during 0)
   = (Inl (SurfaAuthError ''Authentication failed: 401''),
      live_client\<lparr>buffer := [demo_event, late_event]\<rparr>,
      [Post (build_request live_client)])"
proof -
  have "buffer live_client \<noteq> []" by (simp add: live_defs fixture_defs)
  then show ?thesis
    by (simp add: flush_live_unroll)
      (simp add: flush_defs fixture_defs live_defs str_int_evals)
qed

lemma late_track_appends:
  "track_raw live_client tr late_event
   = (Inr (), live_client\<lparr>buffer := [demo_event, late_event]\<rparr>, [])"
  by (simp add: track_raw_def validate_event_def dict_get_def live_defs fixture_defs)

lemma live_batch: "p_events (q_json (build_request live_client)) = [demo_event]"
  by (simp add: build_request_def build_payload_def events_to_send_def live_defs fixture_defs)

text \<open>
  One event is buffered and the threshold is 10. While the request of a flush is in
  flight another caller tracks a second event, which \<open>track_raw\<close> appends without
  flushing. The response is a 200: the flush returns, the batch it sent held the first
  event only, and the buffer is empty afterwards. The second event was neither sent nor
  kept.
\<close>

theorem late_event_lost:
  "track_raw live_client ok_transport late_event
   = (Inr (), live_client\<lparr>buffer := buffer live_client @ [late_event]\<rparr>, [])
   \<and> flush_live live_client (replay [Response (ok_response ''exec-1'')]) (appended_during 0)
     = (Inr (VDict [(''execution_id'', VStr ''exec-1'')]),
        live_client\<lparr>execution_id := VStr ''exec-1'', buffer := []\<rparr>,
        [Post (build_request live_client)])
   \<and> appended_during 0 0 = [late_event]
   \<and> late_event \<notin> set (p_events (q_json (build_request live_client)))
   \<and> late_event \<notin> set (buffer (live_client\<lparr>execution_id := VStr ''exec-1'', buffer := []\<rparr>))"
  using flush_live_late_append late_track_appends [of ok_transport] live_batch
  by (simp add: appended_during_def) (simp add: live_defs fixture_defs)

text \<open>
  The same append during a flush that is answered 401: the flush raises, and both events
  are in the buffer afterwards.
\<close>

theorem flush_clears_live_buffer_witness:
  "buffer live_client \<noteq> []
   \<and> flush_live live_client (replay [Response (status_response 401)]) (appended_during 0)
     = (Inl (SurfaAuthError ''Authentication failed: 401''),
        live_client\<lparr>buffer := [demo_event, late_event]\<rparr>,
        [Post (build_request live_client)])
   \<and> (\<exists>n. n < max_retries
          \<and> [Post (build_request live_client)] = retry_trace (build_request live_client) n
          \<and> live_client\<lparr>buffer := [demo_event, late_event]\<rparr>
            = live_client\<lparr>buffer := buffer live_client
                                      @ concat (map (appended_during 0) [0..<Suc n])\<rparr>)"
proof -
  have nonempty: "buffer live_client \<noteq> []"
    by (simp add: live_defs fixture_defs)
  from flush_clears_live_buffer
         [OF nonempty, of "replay [Response (status_response 401)]" "appended_during 0"]
  have "flush_live live_client (replay [Response (status_response 401)]) (appended_during 0)
          = (res, c', t) \<longrightarrow>
        (\<exists>n. n < max_retries \<and> t = retry_trace (build_request live_client) n
           \<and> (case res of
                 Inr data \<Rightarrow>
                   c' = live_client\<lparr>execution_id := execution_id c',
                                    runtime_info_emitted := runtime_info_emitted c',
                                    buffer := []\<rparr>
               | Inl e \<Rightarrow>
                   c' = live_client\<lparr>buffer := buffer live_client
                                       @ concat (map (appended_during 0) [0..<Suc n])\<rparr>))"
    for res c' t
    by blast
  from this [rule_format, OF flush_live_late_append_401] nonempty flush_live_late_append_401
  show ?thesis by simp
qed

subsection \<open>Automatic flush\<close>

lemma retry_trace_first: "\<exists>t. retry_trace q n = Post q # t"
proof (cases n)
  case 0
  then show ?thesis by (simp add: retry_trace_def)
next
  case (Suc m)
  then show ?thesis by (simp add: retry_trace_def upt_rec)
qed

lemma flush_posts_first:
  assumes "buffer c \<noteq> []"
  shows "\<exists>res c' t. flush c tr = (res, c', Post (build_request c) # t)"
proof -
  obtain res c' t where f: "flush c tr = (res, c', t)"
    by (cases "flush c tr")
  with assms obtain n where "t = retry_trace (build_request c) n"
    by (rule flush_decided)
  with f retry_trace_first [of "build_request c" n] show ?thesis by auto
qed

lemma events_to_send_buffer:
  "events_to_send c = buffer c \<or> (\<exists>ev. events_to_send c = ev # buffer c)"
  by (auto simp: events_to_send_def split: option.splits)

text \<open>
  C6. A tracking call appends a valid event and then flushes exactly when the buffer
  length has reached \<open>flush_at\<close>. Below the threshold the call returns with the event
  appended and makes no request. At or above it the call is the flush of the buffer with
  the event appended: its first effect is the request whose batch ends with that event,
  made before the call returns or raises. An invalid event is neither appended nor
  followed by a flush.
\<close>

theorem auto_flush_at_threshold:
  "track c tr event = track_raw c tr event
   \<and> (validate_event event = Inr ok \<and> int (length (buffer c)) + 1 < flush_at c \<longrightarrow>
        track_raw c tr event = (Inr (), c\<lparr>buffer := buffer c @ [event]\<rparr>, []))
   \<and> (validate_event event = Inr ok \<and> flush_at c \<le> int (length (buffer c)) + 1 \<longrightarrow>
        (\<exists>res c' t.
           flush (c\<lparr>buffer := buffer c @ [event]\<rparr>) tr
             = (res, c', Post (build_request (c\<lparr>buffer := buffer c @ [event]\<rparr>)) # t)
           \<and> track_raw c tr event
             = ((case res of Inl e \<Rightarrow> Inl e | Inr data \<Rightarrow> Inr ()), c',
                Post (build_request (c\<lparr>buffer := buffer c @ [event]\<rparr>)) # t)
           \<and> last (p_events (q_json (build_request (c\<lparr>buffer := buffer c @ [event]\<rparr>))))
             = event))
   \<and> (validate_event event = Inl (ValueError m) \<longrightarrow>
        track_raw c tr event = (Inl (SurfaValidationError (''Invalid event: '' @ m)), c, []))"
proof (intro conjI impI)
  show "track c tr event = track_raw c tr event"
    by (simp add: track_def)
next
  assume "validate_event event = Inr ok \<and> int (length (buffer c)) + 1 < flush_at c"
  then show "track_raw c tr event = (Inr (), c\<lparr>buffer := buffer c @ [event]\<rparr>, [])"
    by (simp add: track_raw_def)
next
  let ?c1 = "c\<lparr>buffer := buffer c @ [event]\<rparr>"
  assume h: "validate_event event = Inr ok \<and> flush_at c \<le> int (length (buffer c)) + 1"
  have "buffer ?c1 \<noteq> []" by simp
  then obtain res c' t where f: "flush ?c1 tr = (res, c', Post (build_request ?c1) # t)"
    using flush_posts_first by blast
  from h f have "track_raw c tr event
      = ((case res of Inl e \<Rightarrow> Inl e | Inr data \<Rightarrow> Inr ()), c', Post (build_request ?c1) # t)"
    by (cases res) (simp_all add: track_raw_def)
  moreover have "last (p_events (q_json (build_request ?c1))) = event"
    using events_to_send_buffer [of ?c1]
    by (auto simp: build_request_def build_payload_def)
  ultimately show "\<exists>res c' t.
      flush ?c1 tr = (res, c', Post (build_request ?c1) # t)
      \<and> track_raw c tr event
        = ((case res of Inl e \<Rightarrow> Inl e | Inr data \<Rightarrow> Inr ()), c', Post (build_request ?c1) # t)
      \<and> last (p_events (q_json (build_request ?c1))) = event"
    using f by blast
next
  assume "validate_event event = Inl (ValueError m)"
  then show "track_raw c tr event
      = (Inl (SurfaValidationError (''Invalid event: '' @ m)), c, [])"
    by (simp add: track_raw_def)
qed

lemma demo_event_valid: "validate_event demo_event = Inr True"
  by (simp add: validate_event_def demo_event_def dict_get_def)

lemma flush_two_events:
  "flush (demo_buffered\<lparr>buffer := buffer demo_buffered @ [demo_event]\<rparr>) ok_transport
   = (Inr (VDict [(''execution_id'', VStr ''exec-1'')]),
      demo_client\<lparr>execution_id := VStr ''exec-1''\<rparr>,
      [Post (build_request (demo_buffered\<lparr>buffer := buffer demo_buffered @ [demo_event]\<rparr>))])"
proof -
  have "buffer (demo_buffered\<lparr>buffer := buffer demo_buffered @ [demo_event]\<rparr>) \<noteq> []"
    by simp
  then show ?thesis
    by (simp add: flush_unroll) (simp add: flush_defs fixture_defs ok_transport_def)
qed

text \<open>
  The scenario with threshold 2: the first event stays in the buffer with no request, the
  second triggers the flush, which empties the buffer.
\<close>

theorem auto_flush_at_threshold_witness:
  "validate_event demo_event = Inr True
   \<and> int (length (buffer demo_client)) + 1 < flush_at demo_client
   \<and> track_raw demo_client ok_transport demo_event = (Inr (), demo_buffered, [])
   \<and> flush_at demo_buffered \<le> int (length (buffer demo_buffered)) + 1
   \<and> track_raw demo_buffered ok_transport demo_event
     = (Inr (), demo_client\<lparr>execution_id := VStr ''exec-1''\<rparr>,
        [Post (build_request (demo_buffered\<lparr>buffer := buffer demo_buffered @ [demo_event]\<rparr>))])
   \<and> buffer (demo_client\<lparr>execution_id := VStr ''exec-1''\<rparr>) = []"
proof -
  have below: "int (length (buffer demo_client)) + 1 < flush_at demo_client"
    by (simp add: demo_client_def)
  have reached: "flush_at demo_buffered \<le> int (length (buffer demo_buffered)) + 1"
    by (simp add: demo_buffered_def demo_client_def)
  from auto_flush_at_threshold [of demo_client ok_transport demo_event True]
    demo_event_valid below
  have first: "track_raw demo_client ok_transport demo_event = (Inr (), demo_buffered, [])"
    by (simp add: demo_buffered_def demo_client_def)
  from auto_flush_at_threshold [of demo_buffered ok_transport demo_event True]
    demo_event_valid reached flush_two_events
  have second: "track_raw demo_buffered ok_transport demo_event
     = (Inr (), demo_client\<lparr>execution_id := VStr ''exec-1''\<rparr>,
        [Post (build_request (demo_buffered\<lparr>buffer := buffer demo_buffered @ [demo_event]\<rparr>))])"
    by auto
  from demo_event_valid below first reached second show ?thesis
    by (simp add: demo_client_def)
qed

subsection \<open>The runtime-info event\<close>

lemma set_runtime_result:
  assumes "set_runtime c0 provider model mode extra kwargs = Inr c1"
  obtains rt where "runtime c1 = Some rt" "rt \<noteq> []" "distinct (map fst rt)"
    "\<not> runtime_info_emitted c1"
    "c1 = c0\<lparr>runtime := Some rt, runtime_info_emitted := False\<rparr>"
proof -
  let ?base = "[(''provider'', provider), (''model'', model)]"
  let ?with_mode = "if truthy mode then dict_set ?base ''mode'' mode else ?base"
  have base: "?with_mode \<noteq> []" "distinct (map fst ?with_mode)"
    by (simp_all add: dict_set_nonempty)
  from assms obtain rt1 where
    rt1: "(if truthy extra then update_from ?with_mode extra else Inr ?with_mode) = Inr rt1"
    and c1: "c1 = c0\<lparr>runtime := Some (dict_update rt1 kwargs), runtime_info_emitted := False\<rparr>"
    by (auto simp: set_runtime_def Let_def split: if_splits sum.splits)
  have "rt1 \<noteq> [] \<and> distinct (map fst rt1)"
  proof (cases "truthy extra")
    case True
    with rt1 obtain d where "extra = VDict d" "rt1 = dict_update ?with_mode d"
      by (cases extra) (auto split: if_splits)
    with base show ?thesis
      by (simp only: dict_update_nonempty distinct_dict_update simp_thms)
  next
    case False
    with rt1 base show ?thesis by auto
  qed
  then have "dict_update rt1 kwargs \<noteq> []" "distinct (map fst (dict_update rt1 kwargs))"
    by (simp_all add: dict_update_nonempty distinct_dict_update)
  with c1 show ?thesis
    by (intro that [of "dict_update rt1 kwargs"]) simp_all
qed

lemma runtime_info_event_fields:
  assumes "distinct (map fst rt)"
  shows "\<exists>ev. runtime_info_event rt = VDict ev
           \<and> (\<forall>k v. dict_get rt k = Some v \<longrightarrow> dict_get ev k = Some v)
           \<and> (\<not> dict_has rt ''kind'' \<longrightarrow> dict_get ev ''kind'' = Some (VStr ''runtime''))
           \<and> (\<not> dict_has rt ''subtype'' \<longrightarrow>
                 dict_get ev ''subtype'' = Some (VStr ''runtime_info''))"
proof -
  let ?ev = "dict_update [(''kind'', VStr ''runtime''), (''subtype'', VStr ''runtime_info'')] rt"
  have "runtime_info_event rt = VDict ?ev"
    by (simp add: runtime_info_event_def)
  moreover have "\<forall>k v. dict_get rt k = Some v \<longrightarrow> dict_get ?ev k = Some v"
    by (simp add: dict_get_update [OF assms])
  moreover have "\<not> dict_has rt ''kind'' \<longrightarrow> dict_get ?ev ''kind'' = Some (VStr ''runtime'')"
    unfolding dict_get_update [OF assms] by (simp add: dict_has_def dict_get_def)
  moreover have "\<not> dict_has rt ''subtype'' \<longrightarrow>
      dict_get ?ev ''subtype'' = Some (VStr ''runtime_info'')"
    unfolding dict_get_update [OF assms] by (simp add: dict_has_def dict_get_def)
  ultimately show ?thesis by blast
qed

lemma flush_runtime:
  assumes "flush c tr = (res, c', t)"
  shows "runtime c' = runtime c"
    and "runtime_info_emitted c \<Longrightarrow> runtime_info_emitted c'"
    and "res = Inr data \<Longrightarrow> buffer c \<noteq> [] \<Longrightarrow> runtime c = Some rt \<Longrightarrow> rt \<noteq> [] \<Longrightarrow>
         runtime_info_emitted c'"
proof -
  have shape: "runtime c' = runtime c
      \<and> (runtime_info_emitted c \<longrightarrow> runtime_info_emitted c')
      \<and> (\<forall>data. res = Inr data \<and> buffer c \<noteq> [] \<longrightarrow>
            runtime_info_emitted c' = (runtime_info_emitted c \<or> runtime_info_due c))"
  proof (cases "buffer c = []")
    case True
    with assms show ?thesis by (auto simp: flush_def)
  next
    case False
    show ?thesis
    proof (cases res)
      case (Inl e)
      with flush_outcome [OF assms False] show ?thesis by simp
    next
      case (Inr data)
      with flush_outcome [OF assms False] obtain r where ok: "on_success c r = Inr (data, c')"
        by auto
      have "runtime c' = runtime c"
        by (subst on_success_shape(1) [OF ok]) simp
      with on_success_shape(3) [OF ok] Inr show ?thesis by auto
    qed
  qed
  from shape show "runtime c' = runtime c" by simp
  from shape show "runtime_info_emitted c'" if "runtime_info_emitted c"
    using that by simp
  from shape show "runtime_info_emitted c'"
    if "res = Inr data" "buffer c \<noteq> []" "runtime c = Some rt" "rt \<noteq> []"
    using that by (auto simp: runtime_info_due_def)
qed

text \<open>
  C2, as the code has it. After \<open>set_runtime\<close> the client has a non-empty runtime
  snapshot and \<open>runtime_info_emitted\<close> is false. From any such state with a non-empty
  buffer, the batch of a flush is the runtime-info event followed by the buffer, in every
  request of that flush; when the flush raises the state is unchanged, and when it returns
  \<open>runtime_info_emitted\<close> is true. With the same runtime and \<open>runtime_info_emitted\<close>
  true, the batch is the buffer alone, and a flush keeps the flag. The runtime-info event
  is \<open>{'kind': 'runtime', 'subtype': 'runtime_info', **runtime}\<close>: it has every field of
  the snapshot, and \<open>kind = 'runtime'\<close> and \<open>subtype = 'runtime_info'\<close> when the snapshot
  has no field of that name.
\<close>

theorem runtime_info_once:
  assumes "set_runtime c0 provider model mode extra kwargs = Inr c1"
  shows "\<exists>rt ev.
           runtime c1 = Some rt \<and> rt \<noteq> [] \<and> \<not> runtime_info_emitted c1
           \<and> runtime_info_event rt = VDict ev
           \<and> (\<forall>k v. dict_get rt k = Some v \<longrightarrow> dict_get ev k = Some v)
           \<and> (\<not> dict_has rt ''kind'' \<longrightarrow> dict_get ev ''kind'' = Some (VStr ''runtime''))
           \<and> (\<not> dict_has rt ''subtype'' \<longrightarrow>
                 dict_get ev ''subtype'' = Some (VStr ''runtime_info''))
           \<and> (\<forall>c tr res c' t.
                 runtime c = Some rt \<and> \<not> runtime_info_emitted c \<and> buffer c \<noteq> []
                 \<and> flush c tr = (res, c', t) \<longrightarrow>
                 p_events (q_json (build_request c)) = VDict ev # buffer c
                 \<and> (\<exists>n < max_retries. t = retry_trace (build_request c) n)
                 \<and> (case res of
                       Inl e \<Rightarrow> c' = c
                     | Inr data \<Rightarrow>
                         runtime c' = Some rt \<and> runtime_info_emitted c' \<and> buffer c' = []))
           \<and> (\<forall>c tr res c' t.
                 runtime c = Some rt \<and> runtime_info_emitted c \<and> flush c tr = (res, c', t) \<longrightarrow>
                 p_events (q_json (build_request c)) = buffer c
                 \<and> runtime c' = Some rt \<and> runtime_info_emitted c')"
proof -
  from assms obtain rt where rt: "runtime c1 = Some rt" "rt \<noteq> []" "distinct (map fst rt)"
    "\<not> runtime_info_emitted c1"
    by (rule set_runtime_result)
  from runtime_info_event_fields [OF rt(3)] obtain ev where ev:
    "runtime_info_event rt = VDict ev"
    "\<forall>k v. dict_get rt k = Some v \<longrightarrow> dict_get ev k = Some v"
    "\<not> dict_has rt ''kind'' \<longrightarrow> dict_get ev ''kind'' = Some (VStr ''runtime'')"
    "\<not> dict_has rt ''subtype'' \<longrightarrow> dict_get ev ''subtype'' = Some (VStr ''runtime_info'')"
    by blast
  have due: "p_events (q_json (build_request c)) = VDict ev # buffer c
      \<and> (\<exists>n < max_retries. t = retry_trace (build_request c) n)
      \<and> (case res of
            Inl e \<Rightarrow> c' = c
          | Inr data \<Rightarrow> runtime c' = Some rt \<and> runtime_info_emitted c' \<and> buffer c' = [])"
    if h: "runtime c = Some rt \<and> \<not> runtime_info_emitted c \<and> buffer c \<noteq> []
           \<and> flush c tr = (res, c', t)"
    for c tr res c' t
  proof -
    from h have f: "flush c tr = (res, c', t)" and nonempty: "buffer c \<noteq> []" by simp_all
    from h rt(2) ev(1) have "p_events (q_json (build_request c)) = VDict ev # buffer c"
      by (simp add: build_request_def build_payload_def events_to_send_def)
    moreover from nonempty f have "\<exists>n < max_retries. t = retry_trace (build_request c) n"
      by (rule flush_decided) blast
    moreover have "case res of
        Inl e \<Rightarrow> c' = c
      | Inr data \<Rightarrow> runtime c' = Some rt \<and> runtime_info_emitted c' \<and> buffer c' = []"
    proof (cases res)
      case (Inl e)
      with flush_outcome [OF f nonempty] show ?thesis by simp
    next
      case (Inr data)
      from flush_runtime(1) [OF f] h have "runtime c' = Some rt" by simp
      moreover from flush_runtime(3) [OF f Inr nonempty _ rt(2)] h
      have "runtime_info_emitted c'" by simp
      moreover from flush_outcome [OF f nonempty] Inr obtain r
        where "on_success c r = Inr (data, c')" by auto
      then have "buffer c' = []"
        by (auto simp: on_success_def Let_def split: sum.splits if_splits)
      ultimately show ?thesis using Inr by simp
    qed
    ultimately show ?thesis by simp
  qed
  have sent: "p_events (q_json (build_request c)) = buffer c
      \<and> runtime c' = Some rt \<and> runtime_info_emitted c'"
    if h: "runtime c = Some rt \<and> runtime_info_emitted c \<and> flush c tr = (res, c', t)"
    for c tr res c' t
  proof -
    from h have f: "flush c tr = (res, c', t)" by simp
    from h have "p_events (q_json (build_request c)) = buffer c"
      by (simp add: build_request_def build_payload_def events_to_send_def)
    with flush_runtime(1,2) [OF f] h show ?thesis by simp
  qed
  from rt ev due sent show ?thesis
    by (intro exI [of _ rt] exI [of _ ev]) blast
qed

lemma set_runtime_plain:
  "set_runtime demo_buffered (VStr ''anthropic'') (VStr ''claude-x'') VNone VNone [] = Inr rt_client"
  by (simp add: set_runtime_def rt_client_def)

lemma set_runtime_kind:
  "set_runtime demo_buffered (VStr ''anthropic'') (VStr ''claude-x'') VNone
     (VDict [(''kind'', VStr ''tool'')]) [] = Inr rt_kind_client"
  by (simp add: set_runtime_def rt_kind_client_def)

lemma batch_rt_client:
  "p_events (q_json (build_request rt_client))
   = [VDict [(''kind'', VStr ''runtime''), (''subtype'', VStr ''runtime_info''),
             (''provider'', VStr ''anthropic''), (''model'', VStr ''claude-x'')],
      demo_event]"
  by (simp add: build_request_def build_payload_def events_to_send_def runtime_info_event_def
      rt_client_def demo_buffered_def)

lemma batch_rt_kind_client:
  "p_events (q_json (build_request rt_kind_client))
   = [VDict [(''kind'', VStr ''tool''), (''subtype'', VStr ''runtime_info''),
             (''provider'', VStr ''anthropic''), (''model'', VStr ''claude-x'')],
      demo_event]"
  by (simp add: build_request_def build_payload_def events_to_send_def runtime_info_event_def
      rt_kind_client_def demo_buffered_def)

lemma flush_rt_client:
  "flush rt_client ok_transport
   = (Inr (VDict [(''execution_id'', VStr ''exec-1'')]), rt_sent,
      [Post (build_request rt_client)])"
proof -
  have "buffer rt_client \<noteq> []" by (simp add: rt_client_def fixture_defs)
  then show ?thesis
    by (simp add: flush_unroll)
      (simp add: flush_defs fixture_defs ok_transport_def rt_client_def rt_sent_def)
qed

lemma flush_rt_kind_client:
  "flush rt_kind_client ok_transport
   = (Inr (VDict [(''execution_id'', VStr ''exec-1'')]),
      rt_kind_client\<lparr>execution_id := VStr ''exec-1'', runtime_info_emitted := True,
                      buffer := []\<rparr>,
      [Post (build_request rt_kind_client)])"
proof -
  have "buffer rt_kind_client \<noteq> []" by (simp add: rt_kind_client_def fixture_defs)
  then show ?thesis
    by (simp add: flush_unroll)
      (simp add: flush_defs fixture_defs ok_transport_def rt_kind_client_def)
qed

text \<open>
  \<open>set_runtime(provider='anthropic', model='claude-x', extra={'kind': 'tool'})\<close>, then a
  successful flush of one event: the first event of the batch sent has \<open>kind = 'tool'\<close>,
  not \<open>'runtime'\<close>.
\<close>

theorem runtime_field_overrides_kind:
  "set_runtime demo_buffered (VStr ''anthropic'') (VStr ''claude-x'') VNone
     (VDict [(''kind'', VStr ''tool'')]) [] = Inr rt_kind_client
   \<and> flush rt_kind_client ok_transport
     = (Inr (VDict [(''execution_id'', VStr ''exec-1'')]),
        rt_kind_client\<lparr>execution_id := VStr ''exec-1'', runtime_info_emitted := True,
                        buffer := []\<rparr>,
        [Post (build_request rt_kind_client)])
   \<and> p_events (q_json (build_request rt_kind_client))
     = [VDict [(''kind'', VStr ''tool''), (''subtype'', VStr ''runtime_info''),
               (''provider'', VStr ''anthropic''), (''model'', VStr ''claude-x'')],
        demo_event]"
  using set_runtime_kind flush_rt_kind_client batch_rt_kind_client by simp

text \<open>
  The scenario \<open>set_runtime(provider='anthropic', model='claude-x')\<close>, one event, flush:
  the batch has two entries, the runtime-info event first; with one more event the next
  batch has that event alone.
\<close>

theorem runtime_info_once_witness:
  "set_runtime demo_buffered (VStr ''anthropic'') (VStr ''claude-x'') VNone VNone [] = Inr rt_client
   \<and> p_events (q_json (build_request rt_client))
     = [VDict [(''kind'', VStr ''runtime''), (''subtype'', VStr ''runtime_info''),
               (''provider'', VStr ''anthropic''), (''model'', VStr ''claude-x'')],
        demo_event]
   \<and> flush rt_client ok_transport
     = (Inr (VDict [(''execution_id'', VStr ''exec-1'')]), rt_sent,
        [Post (build_request rt_client)])
   \<and> runtime_info_emitted rt_sent
   \<and> p_events (q_json (build_request (rt_sent\<lparr>buffer := [demo_event]\<rparr>))) = [demo_event]"
proof -
  from runtime_info_once [OF set_runtime_plain] obtain rt ev where
    rt: "runtime rt_client = Some rt"
    and due: "\<forall>c tr res c' t.
        runtime c = Some rt \<and> \<not> runtime_info_emitted c \<and> buffer c \<noteq> []
        \<and> flush c tr = (res, c', t) \<longrightarrow>
        p_events (q_json (build_request c)) = VDict ev # buffer c
        \<and> (\<exists>n < max_retries. t = retry_trace (build_request c) n)
        \<and> (case res of
              Inl e \<Rightarrow> c' = c
            | Inr data \<Rightarrow> runtime c' = Some rt \<and> runtime_info_emitted c' \<and> buffer c' = [])"
    and sent: "\<forall>c tr res c' t.
        runtime c = Some rt \<and> runtime_info_emitted c \<and> flush c tr = (res, c', t) \<longrightarrow>
        p_events (q_json (build_request c)) = buffer c
        \<and> runtime c' = Some rt \<and> runtime_info_emitted c'"
    by blast
  have state: "\<not> runtime_info_emitted rt_client" "buffer rt_client \<noteq> []"
    by (simp_all add: rt_client_def demo_buffered_def)
  from due rt state flush_rt_client have emitted: "runtime_info_emitted rt_sent"
    by fastforce
  let ?next = "rt_sent\<lparr>buffer := [demo_event]\<rparr>"
  obtain res c' t where next_flush: "flush ?next ok_transport = (res, c', t)"
    by (cases "flush ?next ok_transport")
  have "runtime ?next = Some rt" "runtime_info_emitted ?next"
    using rt emitted by (simp_all add: rt_sent_def)
  with sent next_flush have "p_events (q_json (build_request ?next)) = buffer ?next"
    by blast
  with set_runtime_plain batch_rt_client flush_rt_client emitted show ?thesis
    by simp
qed

section \<open>Properties of the event factory\<close>

text \<open>
  C9. For a non-empty \<open>kind\<close>, \<open>create_event\<close> called with \<open>kind\<close> alone (positionally
  or as the keyword \<open>kind\<close>) returns the event with exactly the two fields \<open>ts\<close>, the
  current time, and \<open>kind\<close>; \<open>validate_event\<close> accepts that event. \<open>validate_event\<close>
  only reads its argument (it has no assignment), so the event validated is the event
  built.
\<close>

theorem create_event_roundtrip:
  assumes "kind \<noteq> []"
  shows "create_event now (only_kind (VStr kind)) []
           = Inr [(''ts'', VStr now), (''kind'', VStr kind)]
         \<and> call_create_event now [(''kind'', VStr kind)]
           = Inr [(''ts'', VStr now), (''kind'', VStr kind)]
         \<and> validate_event (VDict [(''ts'', VStr now), (''kind'', VStr kind)]) = Inr True"
  using assms
  by (simp add: create_event_def named_fields_def only_kind_def set_if_given_def validate_event_def dict_get_def
      dict_has_def call_create_event_def kwarg_def create_event_params_def)

theorem create_event_roundtrip_witness:
  "''tool'' \<noteq> []
   \<and> create_event ''2026-01-29T20:00:00Z'' (only_kind (VStr ''tool'')) []
     = Inr [(''ts'', VStr ''2026-01-29T20:00:00Z''), (''kind'', VStr ''tool'')]
   \<and> validate_event (VDict [(''ts'', VStr ''2026-01-29T20:00:00Z''), (''kind'', VStr ''tool'')])
     = Inr True"
  using create_event_roundtrip [of "''tool''" "''2026-01-29T20:00:00Z''"] by simp

subsection \<open>Merging of the payload and the keyword arguments\<close>

lemma dict_get_set_if_given:
  "dict_get (set_if_given n x e) k = (if k = n \<and> x \<noteq> VNone then Some x else dict_get e k)"
  by (simp add: set_if_given_def dict_get_set)

lemma named_fields_kind: "dict_get (named_fields now a) ''kind'' = Some (a_kind a)"
  by (simp add: named_fields_def dict_get_set_if_given) (simp add: dict_get_def)























subsection \<open>When the factory returns\<close>













end
